theory Spec2Isabelle
  imports Complex_Main "HOL-Library.Monad_Syntax"
begin

section \<open>GEMM launcher and interface (jit\_blas\_wrapper.h)\<close>

subsection \<open>Tile helpers\<close>

text \<open>
  Modelled from the spec: \<open>utils::remainsize\<close>, \<open>utils::padto\<close> and \<open>utils::padto_le\<close>
  are declared in jit\_blas\_utils.h, which is not among the sources. The spec describes
  them through their use: a loop over a range "in Step chunks" hands \<open>remainsize\<close> the
  chunk start, the range size and the step and gets the size of the chunk (the step, or
  what is left at the end of the range); \<open>padto_le\<close> is "the largest multiple of KTILE"
  not above its argument, and \<open>padto\<close> the smallest multiple not below it.

  The source computes on C++ \<open>int\<close>, 32 bits wide on the machines the library is
  written for. A signed computation whose result is not representable has no defined
  behaviour; the model computes on unbounded integers, and \<open>no_overflow\<close> below says
  when every such computation of a launch stays in the range of \<open>int\<close>. A conversion
  from \<open>size_t\<close> to \<open>int\<close> is defined; the one whose result the model records, the row
  stride of the C tile, is modelled by \<open>narrow_int\<close>. The division of C++ rounds towards
  zero and \<open>div\<close> rounds down: they agree on the arguments of \<open>padto\<close> and \<open>padto_le\<close>
  in a launch, which are not negative when the rectangle and the sizes are not.
\<close>

definition remainsize :: "int \<Rightarrow> int \<Rightarrow> int \<Rightarrow> int" where
  "remainsize pos sz n = (if pos + n \<le> sz then n else sz - pos)"

definition padto_le :: "int \<Rightarrow> int \<Rightarrow> int" where
  "padto_le a b = a div b * b"

definition padto :: "int \<Rightarrow> int \<Rightarrow> int" where
  "padto a b = (a + b - 1) div b * b"

subsection \<open>Data\<close>

text \<open>
  The template parameter \<open>_GemmCore_T\<close>: its compile-time constants and the sizes of its
  element types. The kernels themselves (\<open>forward\<close>) are opaque; the model records the
  calls made to them.
\<close>

record GemmCore =
  ISA :: nat
  MTILE :: int
  NTILE :: int
  KTILE :: int
  sizeof_AType :: int
  sizeof_BType :: int
  sizeof_CType :: int

text \<open>
  \<open>Param\<close> and \<open>ParallelConfig\<close> are declared twice in the source, with the same fields,
  in \<open>GemmLauncherPackWeight\<close> and in \<open>GemmLauncherPackWeightDynamicQuant\<close>. The fields
  \<open>paramA\<close>, \<open>paramB\<close>, \<open>paramC\<close> and \<open>workspace\<close> of \<open>Param\<close> are handles that the
  launcher only passes on to the prologues and the epilogue; they are left out.
\<close>

record Param =
  M :: int
  N :: int
  K :: int

record ParallelConfig =
  rowidx :: int
  colidx :: int
  rowsize :: int
  colsize :: int
  MStep :: int
  NStep :: int
  KStep :: int
  StackSize :: int

text \<open>
  The conversion of a \<open>size_t\<close> value to \<open>int\<close>: the value modulo \<open>2\<^sup>3\<^sup>2\<close>, taken in
  the range of \<open>int\<close>. A product computed on \<open>size_t\<close> is the product modulo
  \<open>2\<^sup>6\<^sup>4\<close>, and a negative \<open>int\<close> factor enters it modulo \<open>2\<^sup>6\<^sup>4\<close>; the conversion
  to \<open>int\<close> makes both immaterial, so \<open>narrow_int\<close> is applied to the product of the
  integers.
\<close>

definition narrow_int :: "int \<Rightarrow> int" where
  "narrow_int x = (x + 2147483648) mod 4294967296 - 2147483648"

definition INT_MAX :: int where
  "INT_MAX = 2147483647"

text \<open>
  The rectangle and the problem sizes are not negative, and the largest values that the
  \<open>int\<close> computations of \<open>launch\<close> and \<open>run_block\<close> reach are representable: the sums
  inside \<open>remainsize\<close> and \<open>padto\<close>, the loop counters after their last increment, the
  products \<open>NStep * KStep\<close>, \<open>MTILE * KStep\<close>, \<open>i * NStep\<close> and
  \<open>k_paddedle * NTILE\<close>, the row and column numbers handed to the prologues and the
  epilogue, and the row stride of the C tile in bytes.
\<close>

definition no_overflow :: "GemmCore \<Rightarrow> ParallelConfig \<Rightarrow> Param \<Rightarrow> bool" where
  "no_overflow g c p =
     (0 \<le> rowidx c \<and> 0 \<le> colidx c \<and> 0 \<le> rowsize c \<and> 0 \<le> colsize c
      \<and> 0 \<le> M p \<and> 0 \<le> N p \<and> 0 \<le> K p \<and> 0 < sizeof_CType g
      \<and> M p \<le> INT_MAX \<and> N p \<le> INT_MAX
      \<and> rowidx c + rowsize c \<le> INT_MAX \<and> colidx c + colsize c \<le> INT_MAX
      \<and> rowsize c + MStep c \<le> INT_MAX \<and> colsize c + NStep c \<le> INT_MAX
      \<and> K p + KStep c \<le> INT_MAX
      \<and> MStep c + MTILE g \<le> INT_MAX \<and> NStep c + NTILE g \<le> INT_MAX
      \<and> KStep c + KTILE g \<le> INT_MAX
      \<and> NStep c * KStep c \<le> INT_MAX \<and> MTILE g * KStep c \<le> INT_MAX
      \<and> MStep c * NStep c \<le> INT_MAX \<and> KStep c * NTILE g \<le> INT_MAX
      \<and> NStep c * sizeof_CType g \<le> INT_MAX)"

text \<open>
  The calls a launcher makes on its prologues, its micro-kernel and its epilogue, with
  the integer arguments of each call. Pointers into the stack scratch buffer are byte
  offsets from \<open>StackTmp\<close>.
\<close>

datatype event =
    GetWeight int int int int int
      \<comment> \<open>\<open>bptr_cache\<close> on entry, \<open>k_padded\<close>, \<open>n_padded\<close>, \<open>iterk\<close>, column\<close>
  | GetActivation "int option" int int int int
      \<comment> \<open>\<open>aptr_cache\<close> on entry (\<open>None\<close>: what the preceding \<open>getActivation\<close> left
          in it), rows, k size, first row, k offset\<close>
  | Forward int int int int int int int
      \<comment> \<open>B offset in elements from \<open>bptr_cache\<close>, \<open>cptr_cache\<close>, m, n, k,
          \<open>ccache_stride\<close>, k position\<close>
  | EpilogueForward int int int int int int
      \<comment> \<open>\<open>tmpC\<close>, cache step, first row, first column, rows, columns\<close>

subsection \<open>Loops\<close>

text \<open>
  \<open>for (int i = i0; i < n; i += step) body\<close>. The loop does not return when the step is
  not positive and the range is not empty; then the value is \<open>None\<close>.
\<close>

partial_function (option) for_loop ::
  "int \<Rightarrow> int \<Rightarrow> int \<Rightarrow> (int \<Rightarrow> 's \<Rightarrow> 's option) \<Rightarrow> 's \<Rightarrow> 's option" where
  "for_loop i n step body s =
     (if i < n then Option.bind (body i s) (for_loop (i + step) n step body) else Some s)"

subsection \<open>GemmLauncherPackWeight\<close>

text \<open>
  The body of the loop over \<open>i\<close> in \<open>run_block\<close>: one row tile of the block.
  \<open>aptr_cache\<close> is set to \<open>tmpA\<close> and handed to \<open>getActivation\<close> by reference, so the
  second call receives what the first call left in it. \<open>ccache_stride\<close> is an \<open>int\<close>
  initialised with \<open>_config.NStep * sizeof(CType)\<close>, a product on \<open>size_t\<close>.
\<close>

definition run_block_mtile ::
  "GemmCore \<Rightarrow> ParallelConfig \<Rightarrow> int \<Rightarrow> int \<Rightarrow> int \<Rightarrow> int \<Rightarrow> int \<Rightarrow> int \<Rightarrow> int \<Rightarrow> int \<Rightarrow> int
     \<Rightarrow> event list \<Rightarrow> event list option" where
  "run_block_mtile g c blk_m blk_msize tmpA tmpC n_padded iterk k_remain k_paddedle i evs =
     (let m_remain = remainsize i blk_msize (MTILE g);
          cptr_cache = tmpC + i * NStep c * sizeof_CType g;
          ccache_stride = narrow_int (NStep c * sizeof_CType g);
          evs1 = (if k_paddedle \<noteq> 0
                  then evs @ [GetActivation (Some tmpA) m_remain k_paddedle
                                (blk_m + i + rowidx c) iterk,
                              Forward 0 cptr_cache m_remain n_padded k_paddedle ccache_stride iterk]
                  else evs);
          aptr_cache = (if k_paddedle \<noteq> 0 then None else Some tmpA);
          k_tail = k_remain - k_paddedle;
          evs2 = (if k_tail \<noteq> 0
                  then evs1 @ [GetActivation aptr_cache m_remain k_tail (blk_m + i + rowidx c)
                                 (iterk + k_paddedle),
                               Forward (k_paddedle * NTILE g) cptr_cache m_remain n_padded
                                 (KTILE g) ccache_stride (iterk + k_paddedle)]
                  else evs1)
      in Some evs2)"

text \<open>The body of the loop over \<open>iterk\<close> in \<open>run_block\<close>: one K chunk.\<close>

definition run_block_kchunk ::
  "GemmCore \<Rightarrow> ParallelConfig \<Rightarrow> int \<Rightarrow> int \<Rightarrow> int \<Rightarrow> int \<Rightarrow> int \<Rightarrow> int \<Rightarrow> int \<Rightarrow> int \<Rightarrow> int
     \<Rightarrow> event list \<Rightarrow> event list option" where
  "run_block_kchunk g c kk blk_m blk_n blk_msize tmpA tmpB tmpC n_padded iterk evs =
     (let k_remain = remainsize iterk kk (KStep c);
          k_padded = padto k_remain (KTILE g);
          k_paddedle = padto_le k_remain (KTILE g);
          evs1 = evs @ [GetWeight tmpB k_padded n_padded iterk (colidx c + blk_n)]
      in for_loop 0 blk_msize (MTILE g)
           (run_block_mtile g c blk_m blk_msize tmpA tmpC n_padded iterk k_remain k_paddedle)
           evs1)"

definition run_block ::
  "GemmCore \<Rightarrow> ParallelConfig \<Rightarrow> Param \<Rightarrow> int \<Rightarrow> int \<Rightarrow> int \<Rightarrow> int \<Rightarrow> int \<Rightarrow> int \<Rightarrow> int
     \<Rightarrow> event list \<Rightarrow> event list option" where
  "run_block g c p blk_m blk_n blk_msize blk_nsize tmpA tmpB tmpC evs =
     (let n_padded = padto blk_nsize (NTILE g)
      in do {
        evs1 \<leftarrow> for_loop 0 (K p) (KStep c)
                  (run_block_kchunk g c (K p) blk_m blk_n blk_msize tmpA tmpB tmpC n_padded) evs;
        Some (evs1 @ [EpilogueForward tmpC (NStep c) (rowidx c + blk_m) (colidx c + blk_n)
                        blk_msize blk_nsize])
      })"

text \<open>
  \<open>launch\<close>. \<open>alloca\<close> gives \<open>StackSize\<close> bytes; \<open>tmpB\<close>, \<open>tmpA\<close> and \<open>tmpC\<close> are
  placed one after the other by pointer arithmetic on the element types.
  \<open>GemmLauncherPackWeightDynamicQuant::launch\<close> and its \<open>run_block\<close> are the same code,
  with one more opaque argument (\<open>_quanparam\<close>) handed to \<open>getActivation\<close> and to the
  epilogue, so this definition stands for both.
\<close>

definition launch :: "GemmCore \<Rightarrow> ParallelConfig \<Rightarrow> Param \<Rightarrow> event list \<Rightarrow> event list option" where
  "launch g c p evs =
     (let rowremain = remainsize (rowidx c) (M p) (rowsize c);
          colremain = remainsize (colidx c) (N p) (colsize c);
          tmpB = 0;
          tmpA = tmpB + NStep c * KStep c * sizeof_BType g;
          tmpC = tmpA + MTILE g * KStep c * sizeof_AType g
      in for_loop 0 colremain (NStep c)
           (\<lambda>itern evs.
              let n_remain = remainsize itern colremain (NStep c)
              in for_loop 0 rowremain (MStep c)
                   (\<lambda>iterm evs.
                      let m_remain = remainsize iterm rowremain (MStep c)
                      in run_block g c p iterm itern m_remain n_remain tmpA tmpB tmpC evs)
                   evs)
           evs)"

subsection \<open>The interfaces\<close>

text \<open>
  Modelled from the spec: \<open>enum JBLAS_CODE\<close> is declared in a header that is not among
  the sources, and \<open>JblasSuccess\<close> is the only value the code names. The spec speaks of
  "a success/failure status".
\<close>

datatype JBLAS_CODE = JblasSuccess | JblasFailure

text \<open>What \<open>utils::CpuBase()\<close> reports: the thread count and the size of the L2 cache.\<close>

record CpuBase =
  mNumThreads :: int
  mL2Cache :: int

text \<open>
  The template parameter \<open>_Parallel_T<GemmCore>\<close>: a plan type \<open>'p\<close> with the member
  functions the interfaces call. \<open>getIndex\<close> returns what the source receives through
  its four pointers, in the order \<open>(rowidx, colidx, rowsize, colsize)\<close>.
\<close>

record 'p Parallel =
  update :: "'p \<Rightarrow> int \<Rightarrow> int \<Rightarrow> int \<Rightarrow> int \<Rightarrow> bool \<times> 'p"
  getIndex :: "'p \<Rightarrow> int \<Rightarrow> int \<times> int \<times> int \<times> int"
  getMStep :: "'p \<Rightarrow> int"
  getNStep :: "'p \<Rightarrow> int"
  getKStep :: "'p \<Rightarrow> int"

text \<open>
  What one thread of the parallel region does, in program order: the activation
  quantisation of its row range, the barrier, and a call of the launcher together with
  the calls that launcher makes.
\<close>

datatype call = QuantizeT int | Barrier | Launch ParallelConfig "event list"

text \<open>
  \<open>#pragma omp parallel\<close> after \<open>omp_set_num_threads(n)\<close>: the block runs once for each
  thread number \<open>0 .. n - 1\<close> (the run time is taken to grant the \<open>n\<close> threads asked
  for), and the region is left when every thread has returned. The result lists what
  each thread did; it is \<open>None\<close> when some thread does not return.
\<close>

definition omp_parallel :: "int \<Rightarrow> (int \<Rightarrow> 'a option) \<Rightarrow> 'a list option" where
  "omp_parallel n body = those (map (\<lambda>t. body (int t)) [0..<nat n])"

text \<open>The block of the parallel region in \<open>GemmInterfacePackWeight::compute\<close>.\<close>

definition compute_thread ::
  "GemmCore \<Rightarrow> 'p Parallel \<Rightarrow> CpuBase \<Rightarrow> Param \<Rightarrow> 'p \<Rightarrow> int \<Rightarrow> call list option" where
  "compute_thread g ops cb p paral tidx =
     (case getIndex ops paral tidx of (ri, ci, rs, cs) \<Rightarrow>
        if rs > 0 \<and> cs > 0
        then let config = \<lparr>rowidx = ri, colidx = ci, rowsize = rs, colsize = cs,
                            MStep = getMStep ops paral, NStep = getNStep ops paral,
                            KStep = getKStep ops paral, StackSize = mL2Cache cb\<rparr>
             in do { evs \<leftarrow> launch g config p []; Some [Launch config evs] }
        else Some [])"

text \<open>
  \<open>GemmInterfacePackWeight::compute\<close>. The plan is passed by value and updated first.
  The function-local \<open>static bool dbgprint\<close> is initialised to \<open>false\<close> and never set, so
  the plan is never printed.
\<close>

definition compute ::
  "GemmCore \<Rightarrow> 'p Parallel \<Rightarrow> CpuBase \<Rightarrow> Param \<Rightarrow> 'p \<Rightarrow> (JBLAS_CODE \<times> call list list) option" where
  "compute g ops cb p paral0 =
     (case update ops paral0 (M p) (N p) (K p) (mNumThreads cb) of (changed, paral) \<Rightarrow>
        do {
          logs \<leftarrow> omp_parallel (mNumThreads cb) (compute_thread g ops cb p paral);
          Some (JblasSuccess, logs)
        })"

text \<open>
  The block of the parallel region in \<open>GemmInterfaceDynamicQuant::compute\<close>: the thread
  quantises its share of the activations, waits at the barrier, and then does what a
  thread of the other interface does.
\<close>

definition compute_thread_dq ::
  "GemmCore \<Rightarrow> 'p Parallel \<Rightarrow> CpuBase \<Rightarrow> Param \<Rightarrow> 'p \<Rightarrow> int \<Rightarrow> call list option" where
  "compute_thread_dq g ops cb p paral tidx =
     (case getIndex ops paral tidx of (ri, ci, rs, cs) \<Rightarrow>
        if rs > 0 \<and> cs > 0
        then let config = \<lparr>rowidx = ri, colidx = ci, rowsize = rs, colsize = cs,
                            MStep = getMStep ops paral, NStep = getNStep ops paral,
                            KStep = getKStep ops paral, StackSize = mL2Cache cb\<rparr>
             in do { evs \<leftarrow> launch g config p [];
                     Some [QuantizeT tidx, Barrier, Launch config evs] }
        else Some [QuantizeT tidx, Barrier])"

text \<open>
  \<open>GemmInterfaceDynamicQuant::compute\<close>. \<open>paraA\<close> and \<open>quanA\<close>, made by the activation
  prologue before the region, are opaque and only handed on.
\<close>

definition compute_dq ::
  "GemmCore \<Rightarrow> 'p Parallel \<Rightarrow> CpuBase \<Rightarrow> Param \<Rightarrow> 'p \<Rightarrow> (JBLAS_CODE \<times> call list list) option" where
  "compute_dq g ops cb p paral0 =
     (case update ops paral0 (M p) (N p) (K p) (mNumThreads cb) of (changed, paral) \<Rightarrow>
        do {
          logs \<leftarrow> omp_parallel (mNumThreads cb) (compute_thread_dq g ops cb p paral);
          Some (JblasSuccess, logs)
        })"

text \<open>
  \<open>static_assert(GemmCore::ISA <= _RT_ISA_T, ...)\<close> in both launcher templates: a
  launcher for the run-time instruction set \<open>rt\<close> over the micro-kernel \<open>g\<close> exists only
  when the assertion holds; otherwise the program is not compiled. Instruction sets are
  the values of the enumeration \<open>JBLAS_ISA\<close>.
\<close>

definition GemmLauncherPackWeight :: "nat \<Rightarrow> GemmCore \<Rightarrow> GemmCore option" where
  "GemmLauncherPackWeight rt g = (if ISA g \<le> rt then Some g else None)"

subsection \<open>The calls of a launch, as the specification lists them\<close>

text \<open>
  The definitions of this subsection follow the wording of the specification, not the
  code; the code is compared with them below. \<open>chunks n step\<close> are the starts of the
  chunks of the range \<open>0 .. n - 1\<close> taken \<open>step\<close> at a time.
\<close>

definition chunks :: "int \<Rightarrow> int \<Rightarrow> int list" where
  "chunks n step = map (\<lambda>j. int j * step) [0..<nat ((n + step - 1) div step)]"

text \<open>
  One activation fetch of a K chunk of \<open>k_remain\<close> columns, for the row tile starting
  at \<open>i\<close>: the largest multiple of \<open>KTILE\<close> goes to one micro-kernel call; what is
  left, if the chunk is not a multiple of \<open>KTILE\<close>, goes to a second, partial call.
\<close>

definition split_calls ::
  "GemmCore \<Rightarrow> ParallelConfig \<Rightarrow> int \<Rightarrow> int \<Rightarrow> int \<Rightarrow> int \<Rightarrow> int \<Rightarrow> int \<Rightarrow> int \<Rightarrow> int
     \<Rightarrow> event list" where
  "split_calls g c blk_m blk_msize tmpA tmpC n_padded iterk k_remain i =
     (let rows = remainsize i blk_msize (MTILE g);
          row = blk_m + i + rowidx c;
          cptr = tmpC + i * NStep c * sizeof_CType g;
          k_aligned = k_remain div KTILE g * KTILE g;
          k_tail = k_remain mod KTILE g
      in (if k_aligned \<noteq> 0
          then [GetActivation (Some tmpA) rows k_aligned row iterk,
                Forward 0 cptr rows n_padded k_aligned (NStep c * sizeof_CType g) iterk]
          else [])
       @ (if \<not> KTILE g dvd k_remain
          then [GetActivation (if k_aligned \<noteq> 0 then None else Some tmpA) rows k_tail row
                  (iterk + k_aligned),
                Forward (k_aligned * NTILE g) cptr rows n_padded (KTILE g)
                  (NStep c * sizeof_CType g) (iterk + k_aligned)]
          else []))"

text \<open>One K chunk: one B tile from the weight prologue, then the row tiles.\<close>

definition kchunk_calls ::
  "GemmCore \<Rightarrow> ParallelConfig \<Rightarrow> int \<Rightarrow> int \<Rightarrow> int \<Rightarrow> int \<Rightarrow> int \<Rightarrow> int \<Rightarrow> int \<Rightarrow> int \<Rightarrow> int
     \<Rightarrow> event list" where
  "kchunk_calls g c kk blk_m blk_n blk_msize tmpA tmpB tmpC n_padded iterk =
     (let k_remain = remainsize iterk kk (KStep c)
      in GetWeight tmpB (padto k_remain (KTILE g)) n_padded iterk (colidx c + blk_n)
         # concat (map (split_calls g c blk_m blk_msize tmpA tmpC n_padded iterk k_remain)
                     (chunks blk_msize (MTILE g))))"

text \<open>One output tile: all K chunks, then the epilogue, once.\<close>

definition tile_calls ::
  "GemmCore \<Rightarrow> ParallelConfig \<Rightarrow> Param \<Rightarrow> int \<Rightarrow> int \<Rightarrow> int \<Rightarrow> int \<Rightarrow> int \<Rightarrow> int \<Rightarrow> int
     \<Rightarrow> event list" where
  "tile_calls g c p blk_m blk_n blk_msize blk_nsize tmpA tmpB tmpC =
     concat (map (kchunk_calls g c (K p) blk_m blk_n blk_msize tmpA tmpB tmpC
                    (padto blk_nsize (NTILE g)))
               (chunks (K p) (KStep c)))
     @ [EpilogueForward tmpC (NStep c) (rowidx c + blk_m) (colidx c + blk_n) blk_msize blk_nsize]"

definition launch_rows :: "ParallelConfig \<Rightarrow> Param \<Rightarrow> int" where
  "launch_rows c p = remainsize (rowidx c) (M p) (rowsize c)"

definition launch_cols :: "ParallelConfig \<Rightarrow> Param \<Rightarrow> int" where
  "launch_cols c p = remainsize (colidx c) (N p) (colsize c)"

text \<open>The whole launch: N chunks outside, M chunks inside, one output tile each.\<close>

definition launch_calls :: "GemmCore \<Rightarrow> ParallelConfig \<Rightarrow> Param \<Rightarrow> event list" where
  "launch_calls g c p =
     (let tmpA = NStep c * KStep c * sizeof_BType g;
          tmpC = tmpA + MTILE g * KStep c * sizeof_AType g
      in concat (map (\<lambda>itern.
           concat (map (\<lambda>iterm.
             tile_calls g c p iterm itern
               (remainsize iterm (launch_rows c p) (MStep c))
               (remainsize itern (launch_cols c p) (NStep c)) tmpA 0 tmpC)
             (chunks (launch_rows c p) (MStep c))))
           (chunks (launch_cols c p) (NStep c))))"

fun is_epilogue :: "event \<Rightarrow> bool" where
  "is_epilogue (EpilogueForward _ _ _ _ _ _) = True"
| "is_epilogue _ = False"

subsection \<open>Auxiliary notions for the interfaces\<close>

text \<open>The plan the threads of a \<open>compute\<close> call see: the caller's plan after \<open>update\<close>.\<close>

definition plan_of :: "'p Parallel \<Rightarrow> CpuBase \<Rightarrow> Param \<Rightarrow> 'p \<Rightarrow> 'p" where
  "plan_of ops cb p paral0 = snd (update ops paral0 (M p) (N p) (K p) (mNumThreads cb))"

text \<open>A rectangle with no rows or no columns.\<close>

definition empty_rectangle :: "int \<times> int \<times> int \<times> int \<Rightarrow> bool" where
  "empty_rectangle r = (case r of (ri, ci, rs, cs) \<Rightarrow> rs \<le> 0 \<or> cs \<le> 0)"

subsection \<open>Example instances\<close>

text \<open>
  A plan type for the examples: a table with one rectangle for each thread and fixed
  steps; \<open>update\<close> leaves it as it is.
\<close>

definition table_plan ::
  "int \<Rightarrow> int \<Rightarrow> int \<Rightarrow> (int \<times> int \<times> int \<times> int) list Parallel" where
  "table_plan ms ns ks =
     \<lparr>update = (\<lambda>pl m n k t. (False, pl)),
      getIndex = (\<lambda>pl t. if 0 \<le> t \<and> nat t < length pl then pl ! nat t else (0, 0, 0, 0)),
      getMStep = (\<lambda>pl. ms), getNStep = (\<lambda>pl. ns), getKStep = (\<lambda>pl. ks)\<rparr>"

text \<open>A micro-kernel with 2 x 2 x 2 tiles and four-byte elements.\<close>

definition core_2x2x2 :: GemmCore where
  "core_2x2x2 = \<lparr>ISA = 1, MTILE = 2, NTILE = 2, KTILE = 2,
                  sizeof_AType = 4, sizeof_BType = 4, sizeof_CType = 4\<rparr>"

text \<open>
  A one-by-one rectangle of a problem with \<open>K = 7\<close>, with \<open>KStep = 4\<close>: the first K
  chunk is two full K tiles, the second is one full K tile and a tail of one.
  \<open>small_calls\<close> are the calls \<open>launch\<close> makes for it: \<open>tmpA\<close> is at byte 16 and
  \<open>tmpC\<close> at byte 48 of the scratch buffer.
\<close>

definition small_param :: Param where
  "small_param = \<lparr>M = 1, N = 1, K = 7\<rparr>"

definition small_config :: ParallelConfig where
  "small_config = \<lparr>rowidx = 0, colidx = 0, rowsize = 1, colsize = 1,
                    MStep = 1, NStep = 1, KStep = 4, StackSize = 1048576\<rparr>"

definition small_calls :: "event list" where
  "small_calls =
     [GetWeight 0 4 2 0 0,
      GetActivation (Some 16) 1 4 0 0, Forward 0 48 1 2 4 4 0,
      GetWeight 0 4 2 4 0,
      GetActivation (Some 16) 1 2 0 4, Forward 0 48 1 2 2 4 4,
      GetActivation None 1 1 0 6, Forward 4 48 1 2 2 4 6,
      EpilogueForward 48 1 0 0 1 1]"

text \<open>
  A three-by-three rectangle with steps of two: four output tiles, one K chunk each.
\<close>

definition grid_param :: Param where
  "grid_param = \<lparr>M = 3, N = 3, K = 2\<rparr>"

definition grid_config :: ParallelConfig where
  "grid_config = \<lparr>rowidx = 0, colidx = 0, rowsize = 3, colsize = 3,
                   MStep = 2, NStep = 2, KStep = 2, StackSize = 1048576\<rparr>"

text \<open>The one-by-one rectangle with steps that are multiples of the tile sizes.\<close>

definition tiled_config :: ParallelConfig where
  "tiled_config = \<lparr>rowidx = 0, colidx = 0, rowsize = 1, colsize = 1,
                    MStep = 2, NStep = 2, KStep = 4, StackSize = 1048576\<rparr>"

definition tiled_calls :: "event list" where
  "tiled_calls =
     [GetWeight 0 4 2 0 0,
      GetActivation (Some 32) 1 4 0 0, Forward 0 64 1 2 4 8 0,
      GetWeight 0 4 2 4 0,
      GetActivation (Some 32) 1 2 0 4, Forward 0 64 1 2 2 8 4,
      GetActivation None 1 1 0 6, Forward 4 64 1 2 2 8 6,
      EpilogueForward 64 2 0 0 1 1]"

text \<open>Two threads, the second with an empty rectangle, and 1 MB of L2 cache.\<close>

definition two_threads :: CpuBase where
  "two_threads = \<lparr>mNumThreads = 2, mL2Cache = 1048576\<rparr>"

definition one_thread :: CpuBase where
  "one_thread = \<lparr>mNumThreads = 1, mL2Cache = 1048576\<rparr>"

definition two_rectangles :: "(int \<times> int \<times> int \<times> int) list" where
  "two_rectangles = [(0, 0, 1, 1), (1, 1, 0, 0)]"

subsection \<open>The scratch buffer\<close>

text \<open>
  The byte offsets, from \<open>StackTmp\<close>, that \<open>launch\<close> computes for \<open>tmpA\<close> and \<open>tmpC\<close>
  (\<open>tmpB\<close> is \<open>StackTmp\<close> itself), and the number of bytes that B, A and C tiles of
  \<open>NStep * KStep\<close>, \<open>MTILE * KStep\<close> and \<open>MStep * NStep\<close> elements take together.
\<close>

definition tmpA_offset :: "GemmCore \<Rightarrow> ParallelConfig \<Rightarrow> int" where
  "tmpA_offset g c = NStep c * KStep c * sizeof_BType g"

definition tmpC_offset :: "GemmCore \<Rightarrow> ParallelConfig \<Rightarrow> int" where
  "tmpC_offset g c = tmpA_offset g c + MTILE g * KStep c * sizeof_AType g"

definition scratch_bytes :: "GemmCore \<Rightarrow> ParallelConfig \<Rightarrow> int" where
  "scratch_bytes g c = tmpC_offset g c + MStep c * NStep c * sizeof_CType g"

text \<open>
  The bytes of the scratch buffer, first and one past the last, that a call is handed as
  its tile: the B tile of \<open>k_padded\<close> rows of \<open>n_padded\<close> elements, the A tile of
  \<open>m\<close> rows of \<open>k\<close> elements, the C tile of \<open>m\<close> rows of \<open>n\<close> elements whose rows
  are one cache stride apart (behind the first row, or before it when the stride is
  negative). A \<open>getActivation\<close> that receives the pointer its predecessor left is handed
  no tile of the launcher's own.
\<close>

fun scratch_range :: "GemmCore \<Rightarrow> event \<Rightarrow> (int \<times> int) option" where
  "scratch_range g (GetWeight bptr kp np _ _) = Some (bptr, bptr + kp * np * sizeof_BType g)"
| "scratch_range g (GetActivation (Some aptr) m k _ _) =
     Some (aptr, aptr + m * k * sizeof_AType g)"
| "scratch_range g (GetActivation None m k _ _) = None"
| "scratch_range g (Forward _ cptr m n _ stride _) =
     Some (cptr + min 0 ((m - 1) * stride),
           cptr + max 0 ((m - 1) * stride) + n * sizeof_CType g)"
| "scratch_range g (EpilogueForward cptr step _ _ ms ns) =
     Some (cptr, cptr + ((ms - 1) * step + ns) * sizeof_CType g)"

definition in_stack :: "GemmCore \<Rightarrow> ParallelConfig \<Rightarrow> event \<Rightarrow> bool" where
  "in_stack g c e =
     (case scratch_range g e of
        None \<Rightarrow> True
      | Some (lo, hi) \<Rightarrow> 0 \<le> lo \<and> hi \<le> StackSize c)"

text \<open>
  The part of the buffer that \<open>launch\<close> sets aside for the tiles of each kind: the B
  tile from \<open>tmpB\<close> to \<open>tmpA\<close>, the A tile from \<open>tmpA\<close> to \<open>tmpC\<close>, and the C tile the
  \<open>MStep * NStep\<close> elements from \<open>tmpC\<close>.
\<close>

fun tile_region :: "GemmCore \<Rightarrow> ParallelConfig \<Rightarrow> event \<Rightarrow> int \<times> int" where
  "tile_region g c (GetWeight _ _ _ _ _) = (0, tmpA_offset g c)"
| "tile_region g c (GetActivation _ _ _ _ _) = (tmpA_offset g c, tmpC_offset g c)"
| "tile_region g c (Forward _ _ _ _ _ _ _) = (tmpC_offset g c, scratch_bytes g c)"
| "tile_region g c (EpilogueForward _ _ _ _ _ _) = (tmpC_offset g c, scratch_bytes g c)"

definition in_region :: "GemmCore \<Rightarrow> ParallelConfig \<Rightarrow> event \<Rightarrow> bool" where
  "in_region g c e =
     (case scratch_range g e of
        None \<Rightarrow> True
      | Some (lo, hi) \<Rightarrow> fst (tile_region g c e) \<le> lo \<and> hi \<le> snd (tile_region g c e))"

text \<open>
  The three tiles fit into the buffer, the sizes are positive, and the steps over N and
  K are multiples of the tile sizes.
\<close>

definition tiles_fit :: "GemmCore \<Rightarrow> ParallelConfig \<Rightarrow> bool" where
  "tiles_fit g c =
     (0 < sizeof_AType g \<and> 0 < sizeof_BType g \<and> 0 < sizeof_CType g
      \<and> 0 < MTILE g \<and> 0 < NTILE g \<and> 0 < KTILE g
      \<and> 0 < MStep c \<and> 0 < NStep c \<and> 0 < KStep c
      \<and> NTILE g dvd NStep c \<and> KTILE g dvd KStep c
      \<and> scratch_bytes g c \<le> StackSize c)"

section \<open>The GPT-NeoX evaluator\<close>

subsection \<open>Tensors and what the evaluator does with them\<close>

text \<open>
  What ends a call of the evaluator before it returns: a failed \<open>MODEL_ASSERT\<close>, a
  \<open>memcpy\<close> that reads outside its source or through a null tensor pointer (undefined
  behaviour in the source, an error value here, since the model has no values to copy),
  a division by zero, and a \<open>std::vector::resize\<close> to a negative size (which throws).
\<close>

datatype eval_error = AssertionFailed | OutOfBounds | NullTensor | DivisionByZero | LengthError

text \<open>
  Modelled from the spec: the tensor library (\<open>ne_view_1d\<close>, \<open>ne_view_2d\<close>, \<open>ne_cpy\<close>,
  \<open>ne_element_size\<close>, \<open>ne_get_data\<close>) is not among the sources. The spec's data model
  says: a tensor is an array view with explicit per-dimension strides, an element type
  and a data pointer; views never copy data, they only reinterpret strides; the key/value
  cache is "mutated by appending the current step's computed K/V at position
  \<open>n_past\<close>". A tensor is its element array and the size of one element in bytes. A
  view is what the source passes to make it: the byte offset, the extents \<open>ne0\<close> and
  \<open>ne1\<close>, and the byte stride \<open>nb1\<close> between rows. \<open>view_index\<close> is the place, in
  elements, of cell \<open>(i1, i0)\<close> of a view in the array of the viewed tensor. \<open>ne_cpy\<close>
  writes one source element to every cell of the destination view, row after row.
  Nothing in the evaluator or in the specification checks that the cells of a view lie
  in the array of the tensor, and a copy is no point at which a call ends: a cell inside
  the array is overwritten whatever entry of the cache it belongs to, and a cell outside
  it is memory that is not the tensor's (\<open>write_at\<close> leaves the array as it is there).
\<close>

record 'a ne_tensor =
  data :: "'a list"
  element_size :: int

definition ne_element_size :: "'a ne_tensor \<Rightarrow> int" where
  "ne_element_size t = element_size t"

record ne_view =
  offset :: int
  ne0 :: int
  ne1 :: int
  nb1 :: int

definition ne_view_1d :: "int \<Rightarrow> int \<Rightarrow> ne_view" where
  "ne_view_1d n0 off = \<lparr>offset = off, ne0 = n0, ne1 = 1, nb1 = 0\<rparr>"

definition ne_view_2d :: "int \<Rightarrow> int \<Rightarrow> int \<Rightarrow> int \<Rightarrow> ne_view" where
  "ne_view_2d n0 n1 b1 off = \<lparr>offset = off, ne0 = n0, ne1 = n1, nb1 = b1\<rparr>"

definition view_index :: "'a ne_tensor \<Rightarrow> ne_view \<Rightarrow> nat \<times> nat \<Rightarrow> int" where
  "view_index t vw cell =
     (case cell of (i1, i0) \<Rightarrow> (offset vw + int i1 * nb1 vw) div element_size t + int i0)"

definition view_cells :: "ne_view \<Rightarrow> (nat \<times> nat) list" where
  "view_cells vw = List.product [0..<nat (ne1 vw)] [0..<nat (ne0 vw)]"

definition write_at :: "'a list \<Rightarrow> int \<Rightarrow> 'a \<Rightarrow> 'a list" where
  "write_at d i x = (if 0 \<le> i \<and> i < int (length d) then d[nat i := x] else d)"

definition ne_cpy :: "(int \<Rightarrow> int \<Rightarrow> 'a) \<Rightarrow> ne_view \<Rightarrow> 'a ne_tensor \<Rightarrow> 'a ne_tensor" where
  "ne_cpy src vw t =
     t\<lparr>data := fold (\<lambda>cell d. write_at d (view_index t vw cell)
                                    (src (int (snd cell)) (int (fst cell))))
                   (view_cells vw) (data t)\<rparr>"

definition ne_get_data :: "'a ne_tensor option \<Rightarrow> eval_error + 'a list" where
  "ne_get_data t = (case t of None \<Rightarrow> Inl NullTensor | Some x \<Rightarrow> Inr (data x))"

text \<open>
  \<open>std::vector<float>::resize\<close> and a \<open>memcpy\<close> of \<open>n\<close> elements, from offset \<open>off\<close> of
  the elements of a tensor, to the start of a vector.
\<close>

definition resize :: "int \<Rightarrow> 'a::zero list \<Rightarrow> eval_error + 'a list" where
  "resize n xs =
     (if n < 0 then Inl LengthError
      else Inr (take (nat n) xs @ replicate (nat n - length xs) 0))"

definition memcpy :: "'a list \<Rightarrow> 'a list \<Rightarrow> int \<Rightarrow> int \<Rightarrow> eval_error + 'a list" where
  "memcpy dst src off n =
     (if 0 \<le> off \<and> 0 \<le> n \<and> off + n \<le> int (length src) \<and> n \<le> int (length dst)
      then Inr (take (nat n) (drop (nat off) src) @ drop (nat n) dst)
      else Inl OutOfBounds)"

subsection \<open>The context\<close>

text \<open>
  The fields of \<open>model_context\<close> that the evaluator reads or writes; \<open>lctx.model.hparams\<close>
  and \<open>lctx.model.kv_self\<close> are fields of the context itself here. \<open>kv_ctx\<close> says that
  \<open>kv_self.ctx\<close> is not null. The fields of the cache are prefixed with \<open>kv_\<close>, since
  \<open>k\<close>, \<open>v\<close> and \<open>n\<close> are variable names all over.
\<close>

record model_hparams =
  n_vocab :: int
  n_embd :: int
  n_layer :: int
  n_ctx :: int
  n_head :: int
  n_rot :: int
  par_res :: int

record 'a kv_cache =
  kv_k :: "'a ne_tensor"
  kv_v :: "'a ne_tensor"
  kv_n :: int
  kv_ctx :: bool

record 'a model_context =
  hparams :: model_hparams
  kv_self :: "'a kv_cache"
  logits :: "'a list"
  logits_all :: bool
  embedding :: "'a list"
  mem_per_token :: int
  t_eval_us :: int
  n_eval :: int
  t_p_eval_us :: int
  n_p_eval :: int
  eval_times :: "int list"
  has_evaluated_once :: bool
  t_load_us :: int
  t_start_us :: int

text \<open>
  The numbers a run of the graph produces are floating-point results that the model does
  not compute: \<open>Kcur il\<close> and \<open>Vcur il\<close> give the elements, by their coordinates in the
  destination view, of the tensors copied into the cache in layer \<open>il\<close> (\<open>Kcur\<close> after
  the rotary encoding, \<open>Vcur\<close> transposed), and \<open>inpL\<close> is the final tensor, the output
  of the language-model head. \<open>used_mem\<close> is \<open>ne_used_mem(ctx0)\<close>; \<open>time_start\<close> and
  \<open>time_end\<close> are the two readings of \<open>ne_time_us()\<close>. The tokens themselves and the
  thread count only enter the graph.
\<close>

record 'a graph_run =
  Kcur :: "int \<Rightarrow> int \<Rightarrow> int \<Rightarrow> 'a"
  Vcur :: "int \<Rightarrow> int \<Rightarrow> int \<Rightarrow> 'a"
  inpL :: "'a ne_tensor"
  used_mem :: int
  time_start :: int
  time_end :: int

subsection \<open>gptneox\_model\_eval\_internal\<close>

text \<open>"store key and value to memory": the two views into the cache and the two copies.\<close>

definition store_kv ::
  "'a graph_run \<Rightarrow> model_hparams \<Rightarrow> int \<Rightarrow> int \<Rightarrow> int \<Rightarrow> 'a kv_cache \<Rightarrow> 'a kv_cache" where
  "store_kv run hp n_tokens n_past il kv =
     (let k = ne_view_1d (n_tokens * n_embd hp)
                ((ne_element_size (kv_k kv) * n_embd hp) * (il * n_ctx hp + n_past));
          v = ne_view_2d n_tokens (n_embd hp) (n_ctx hp * ne_element_size (kv_v kv))
                ((il * n_ctx hp) * ne_element_size (kv_v kv) * n_embd hp
                 + n_past * ne_element_size (kv_v kv))
      in kv\<lparr>kv_k := ne_cpy (Kcur run il) k (kv_k kv),
             kv_v := ne_cpy (Vcur run il) v (kv_v kv)\<rparr>)"

text \<open>The loop over the layers, as far as the cache is concerned.\<close>

function layers ::
  "'a graph_run \<Rightarrow> model_hparams \<Rightarrow> int \<Rightarrow> int \<Rightarrow> int \<Rightarrow> 'a kv_cache \<Rightarrow> 'a kv_cache" where
  "layers run hp n_tokens n_past il kv =
     (if il < n_layer hp
      then layers run hp n_tokens n_past (il + 1) (store_kv run hp n_tokens n_past il kv)
      else kv)"
  by pat_completeness auto
termination
  by (relation "measure (\<lambda>(run, hp, n_tokens, n_past, il, kv). nat (n_layer hp - il))") auto

text \<open>"extract logits".\<close>

definition extract_logits ::
  "'a::zero graph_run \<Rightarrow> int \<Rightarrow> 'a model_context \<Rightarrow> eval_error + 'a model_context" where
  "extract_logits run n_tokens lctx =
     (let nv = n_vocab (hparams lctx) in
      if logits_all lctx
      then (case resize (nv * n_tokens) (logits lctx) of
              Inl e \<Rightarrow> Inl e
            | Inr out \<Rightarrow>
                (case ne_get_data (Some (inpL run)) of
                   Inl e \<Rightarrow> Inl e
                 | Inr src \<Rightarrow>
                     (case memcpy out src 0 (nv * n_tokens) of
                        Inl e \<Rightarrow> Inl e
                      | Inr out' \<Rightarrow> Inr (lctx\<lparr>logits := out'\<rparr>))))
      else (case resize nv (logits lctx) of
              Inl e \<Rightarrow> Inl e
            | Inr out \<Rightarrow>
                (case ne_get_data (Some (inpL run)) of
                   Inl e \<Rightarrow> Inl e
                 | Inr src \<Rightarrow>
                     (case memcpy out src (nv * (n_tokens - 1)) nv of
                        Inl e \<Rightarrow> Inl e
                      | Inr out' \<Rightarrow> Inr (lctx\<lparr>logits := out'\<rparr>)))))"

text \<open>
  "extract embeddings". The caller passes the local variable \<open>embeddings\<close>, which the
  source initialises to \<open>NULL\<close> and never assigns.
\<close>

definition extract_embeddings ::
  "'a::zero ne_tensor option \<Rightarrow> int \<Rightarrow> 'a model_context \<Rightarrow> eval_error + 'a model_context" where
  "extract_embeddings embeddings n_tokens lctx =
     (if embedding lctx \<noteq> []
      then (let ne = n_embd (hparams lctx) in
            case resize ne (embedding lctx) of
              Inl e \<Rightarrow> Inl e
            | Inr out \<Rightarrow>
                (case ne_get_data embeddings of
                   Inl e \<Rightarrow> Inl e
                 | Inr src \<Rightarrow>
                     (case memcpy out src (ne * (n_tokens - 1)) ne of
                        Inl e \<Rightarrow> Inl e
                      | Inr out' \<Rightarrow> Inr (lctx\<lparr>embedding := out'\<rparr>))))
      else Inr lctx)"

text \<open>
  \<open>mem_per_token = ne_used_mem(ctx0) / N\<close>: the division is on \<open>size_t\<close>, to which a
  negative \<open>N\<close> is converted.
\<close>

definition update_mem_per_token ::
  "'a graph_run \<Rightarrow> int \<Rightarrow> 'a model_context \<Rightarrow> eval_error + 'a model_context" where
  "update_mem_per_token run n_tokens lctx =
     (if mem_per_token lctx = 0
      then (if n_tokens = 0 then Inl DivisionByZero
            else Inr (lctx\<lparr>mem_per_token :=
                   used_mem run div (if n_tokens < 0 then n_tokens + 2 ^ 64 else n_tokens)\<rparr>))
      else Inr lctx)"

text \<open>"measure the performance only for the single-token evals".\<close>

definition measure_performance :: "'a graph_run \<Rightarrow> int \<Rightarrow> 'a model_context \<Rightarrow> 'a model_context" where
  "measure_performance run n_tokens lctx =
     (let time_interval = time_end run - time_start run;
          lctx1 = (if n_tokens = 1
                   then lctx\<lparr>t_eval_us := t_eval_us lctx + time_interval,
                             n_eval := n_eval lctx + 1\<rparr>
                   else if n_tokens > 1
                   then lctx\<lparr>t_p_eval_us := t_p_eval_us lctx + time_interval,
                             n_p_eval := n_p_eval lctx + n_tokens\<rparr>
                   else lctx)
      in lctx1\<lparr>eval_times := eval_times lctx1 @ [time_interval]\<rparr>)"

text \<open>The evaluator. Its only \<open>return\<close> statement returns \<open>true\<close>.\<close>

definition gptneox_model_eval_internal ::
  "'a::zero graph_run \<Rightarrow> 'a model_context \<Rightarrow> int \<Rightarrow> int \<Rightarrow> eval_error + (bool \<times> 'a model_context)" where
  "gptneox_model_eval_internal run lctx n_tokens n_past =
     (if \<not> kv_ctx (kv_self lctx) then Inl AssertionFailed
      else
        let kv = layers run (hparams lctx) n_tokens n_past 0 (kv_self lctx);
            embeddings = None;
            lctx1 = lctx\<lparr>kv_self := kv\<lparr>kv_n := n_past + n_tokens\<rparr>\<rparr>
        in case extract_logits run n_tokens lctx1 of
             Inl e \<Rightarrow> Inl e
           | Inr lctx2 \<Rightarrow>
               (case extract_embeddings embeddings n_tokens lctx2 of
                  Inl e \<Rightarrow> Inl e
                | Inr lctx3 \<Rightarrow>
                    (case update_mem_per_token run n_tokens lctx3 of
                       Inl e \<Rightarrow> Inl e
                     | Inr lctx4 \<Rightarrow> Inr (True, measure_performance run n_tokens lctx4))))"

text \<open>
  \<open>model_eval\<close>: the return code, what it prints on the error stream, and the context;
  \<open>time_now\<close> is its reading of \<open>ne_time_us()\<close>.
\<close>

definition model_eval ::
  "'a::zero graph_run \<Rightarrow> int \<Rightarrow> 'a model_context \<Rightarrow> int \<Rightarrow> int
     \<Rightarrow> eval_error + (int \<times> string list \<times> 'a model_context)" where
  "model_eval run time_now ctx n_tokens n_past =
     (case gptneox_model_eval_internal run ctx n_tokens n_past of
        Inl e \<Rightarrow> Inl e
      | Inr (ok, ctx1) \<Rightarrow>
          if \<not> ok then Inr (1, [''model_eval: failed to eval''], ctx1)
          else if \<not> has_evaluated_once ctx1
          then Inr (0, [], ctx1\<lparr>t_load_us := time_now - t_start_us ctx1,
                                 has_evaluated_once := True\<rparr>)
          else Inr (0, [], ctx1))"

subsection \<open>Entries of the cache\<close>

text \<open>
  Where channel \<open>e\<close> of position \<open>pos\<close> of layer \<open>il\<close> lies in \<open>kv_self.k\<close> and in
  \<open>kv_self.v\<close>, in elements: these are the places from which the attention of the source
  reads the keys (a view of \<open>(n_past + N) * n_embd\<close> elements from
  \<open>il * n_ctx * n_embd\<close>, position after position) and the values (rows of \<open>n_ctx\<close>
  elements, one row for each channel, from the same start).
\<close>

definition k_index :: "model_hparams \<Rightarrow> int \<Rightarrow> int \<Rightarrow> int \<Rightarrow> int" where
  "k_index hp il pos e = n_embd hp * (il * n_ctx hp + pos) + e"

definition v_index :: "model_hparams \<Rightarrow> int \<Rightarrow> int \<Rightarrow> int \<Rightarrow> int" where
  "v_index hp il pos e = (il * n_embd hp + e) * n_ctx hp + pos"

definition k_entry :: "model_hparams \<Rightarrow> 'a kv_cache \<Rightarrow> int \<Rightarrow> int \<Rightarrow> int \<Rightarrow> 'a" where
  "k_entry hp kv il pos e = data (kv_k kv) ! nat (k_index hp il pos e)"

definition v_entry :: "model_hparams \<Rightarrow> 'a kv_cache \<Rightarrow> int \<Rightarrow> int \<Rightarrow> int \<Rightarrow> 'a" where
  "v_entry hp kv il pos e = data (kv_v kv) ! nat (v_index hp il pos e)"

text \<open>
  A cache as the loader makes it: \<open>n_embd * n_layer * n_ctx\<close> elements for the keys and
  as many for the values, with positive sizes.
\<close>

definition wf_cache :: "model_hparams \<Rightarrow> 'a kv_cache \<Rightarrow> bool" where
  "wf_cache hp kv =
     (0 < n_embd hp \<and> 0 < n_ctx hp
      \<and> 0 < element_size (kv_k kv) \<and> 0 < element_size (kv_v kv)
      \<and> int (length (data (kv_k kv))) = n_embd hp * n_layer hp * n_ctx hp
      \<and> int (length (data (kv_v kv))) = n_embd hp * n_layer hp * n_ctx hp)"

subsection \<open>A small model for the examples\<close>

text \<open>
  Two layers, two channels, a context of three positions, a vocabulary of two tokens; one
  position is in the cache already. The run writes recognisable numbers.
\<close>

definition tiny_hparams :: model_hparams where
  "tiny_hparams = \<lparr>n_vocab = 2, n_embd = 2, n_layer = 2, n_ctx = 3, n_head = 1, n_rot = 2,
                    par_res = 1\<rparr>"

definition tiny_cache :: "int kv_cache" where
  "tiny_cache = \<lparr>kv_k = \<lparr>data = [10, 11, 12, 13, 14, 15, 16, 17, 18, 19, 20, 21], element_size = 2\<rparr>,
                  kv_v = \<lparr>data = [30, 31, 32, 33, 34, 35, 36, 37, 38, 39, 40, 41], element_size = 2\<rparr>,
                  kv_n = 1, kv_ctx = True\<rparr>"

definition tiny_context :: "int model_context" where
  "tiny_context = \<lparr>hparams = tiny_hparams, kv_self = tiny_cache, logits = [], logits_all = False,
                    embedding = [], mem_per_token = 0, t_eval_us = 0, n_eval = 0,
                    t_p_eval_us = 0, n_p_eval = 0, eval_times = [], has_evaluated_once = False,
                    t_load_us = 0, t_start_us = 3\<rparr>"

definition tiny_run :: "int graph_run" where
  "tiny_run = \<lparr>Kcur = (\<lambda>il i0 i1. 100 * (il + 1) + i0),
                Vcur = (\<lambda>il t e. 200 * (il + 1) + 10 * t + e),
                inpL = \<lparr>data = [1, 2, 3, 4], element_size = 4\<rparr>,
                used_mem = 1000, time_start = 5, time_end = 9\<rparr>"

text \<open>The context after the evaluation of two tokens with \<open>n_past = 1\<close>.\<close>

definition tiny_cache_after :: "int kv_cache" where
  "tiny_cache_after =
     \<lparr>kv_k = \<lparr>data = [10, 11, 100, 101, 102, 103, 16, 17, 200, 201, 202, 203], element_size = 2\<rparr>,
      kv_v = \<lparr>data = [30, 200, 210, 33, 201, 211, 36, 400, 410, 39, 401, 411], element_size = 2\<rparr>,
      kv_n = 3, kv_ctx = True\<rparr>"

definition tiny_after :: "int model_context" where
  "tiny_after = tiny_context\<lparr>kv_self := tiny_cache_after, logits := [3, 4],
                  mem_per_token := 500, t_p_eval_us := 4, n_p_eval := 2, eval_times := [4]\<rparr>"

text \<open>
  The context after the evaluation of two tokens with \<open>n_past = 2\<close>, one position more
  than the context of three positions holds.
\<close>

definition tiny_cache_overrun :: "int kv_cache" where
  "tiny_cache_overrun =
     \<lparr>kv_k = \<lparr>data = [10, 11, 12, 13, 100, 101, 102, 103, 18, 19, 200, 201], element_size = 2\<rparr>,
      kv_v = \<lparr>data = [30, 31, 200, 210, 34, 201, 211, 37, 400, 410, 40, 401], element_size = 2\<rparr>,
      kv_n = 4, kv_ctx = True\<rparr>"

definition tiny_overrun :: "int model_context" where
  "tiny_overrun = tiny_context\<lparr>kv_self := tiny_cache_overrun, logits := [3, 4],
                    mem_per_token := 500, t_p_eval_us := 4, n_p_eval := 2, eval_times := [4]\<rparr>"

subsection \<open>Attention weights\<close>















section \<open>The parallel region of the dynamic-quantisation interface\<close>

text \<open>
  The threads of the region run their call lists concurrently. A state holds, for each
  thread, how many of its calls it has made, and the calls made so far in the order in
  which they were made, each with the number of its thread. A thread whose next call is
  not the barrier may make it at any time; the barrier (\<open>#pragma omp barrier\<close>) is passed
  by all threads together, when the next call of every thread is the barrier.
\<close>

inductive par_step ::
  "call list list \<Rightarrow> nat list \<times> (nat \<times> call) list \<Rightarrow> nat list \<times> (nat \<times> call) list \<Rightarrow> bool"
  for progs :: "call list list" where
  exec:
    "length pcs = length progs \<Longrightarrow> t < length progs \<Longrightarrow> pcs ! t < length (progs ! t) \<Longrightarrow>
     progs ! t ! (pcs ! t) \<noteq> Barrier \<Longrightarrow>
     par_step progs (pcs, tr) (pcs[t := Suc (pcs ! t)], tr @ [(t, progs ! t ! (pcs ! t))])"
| barrier:
    "length pcs = length progs \<Longrightarrow>
     \<forall>t < length progs. pcs ! t < length (progs ! t) \<and> progs ! t ! (pcs ! t) = Barrier \<Longrightarrow>
     par_step progs (pcs, tr) (map Suc pcs, tr)"

text \<open>The states that the region can reach from its start.\<close>

definition par_reachable ::
  "call list list \<Rightarrow> nat list \<times> (nat \<times> call) list \<Rightarrow> bool" where
  "par_reachable progs s = (par_step progs)\<^sup>*\<^sup>* (replicate (length progs) 0, []) s"

text \<open>
  Before any call of \<open>launch\<close> in the order of calls, each of the \<open>n\<close> threads has made
  its call of \<open>quantizeT\<close>.
\<close>

definition quantized_before :: "nat \<Rightarrow> (nat \<times> call) list \<Rightarrow> bool" where
  "quantized_before n tr =
     (\<forall>xs t c evs ys. tr = xs @ (t, Launch c evs) # ys \<longrightarrow>
        (\<forall>u < n. (u, QuantizeT (int u)) \<in> set xs))"

text \<open>What a thread of the region does: it quantises, waits, and launches or not.\<close>

definition dq_program :: "nat \<Rightarrow> call list \<Rightarrow> bool" where
  "dq_program t prog =
     (prog = [QuantizeT (int t), Barrier] \<or>
      (\<exists>c evs. prog = [QuantizeT (int t), Barrier, Launch c evs]))"

text \<open>
  The invariant of the region: the threads are all before or at the barrier, or all past
  it; a thread that has made a call has quantised; and \<open>quantized_before\<close> holds.
\<close>

definition dq_inv :: "nat \<Rightarrow> nat list \<times> (nat \<times> call) list \<Rightarrow> bool" where
  "dq_inv n s = (case s of (pcs, tr) \<Rightarrow>
     length pcs = n
     \<and> ((\<forall>t < n. pcs ! t \<le> 1) \<or> (\<forall>t < n. 2 \<le> pcs ! t))
     \<and> (\<forall>t < n. 1 \<le> pcs ! t \<longrightarrow> (t, QuantizeT (int t)) \<in> set tr)
     \<and> quantized_before n tr)"

section \<open>Properties of the launcher\<close>

subsection \<open>Loops over chunks\<close>

lemma int_le_div_iff:
  fixes a b k :: int
  assumes "0 < k"
  shows "a \<le> b div k \<longleftrightarrow> a * k \<le> b"
proof
  assume "a \<le> b div k"
  then have "a * k \<le> (b div k) * k" using assms by (simp add: mult_right_mono)
  also have "\<dots> \<le> b" using assms by (metis mult.commute pos_mod_sign mult_div_mod_eq le_add_same_cancel1)
  finally show "a * k \<le> b" .
next
  assume "a * k \<le> b"
  then have "(a * k) div k \<le> b div k" using assms by (rule zdiv_mono1)
  then show "a \<le> b div k" using assms by simp
qed

lemma chunk_count_less:
  assumes "0 < step"
  shows "int j * step < n \<longleftrightarrow> j < nat ((n + step - 1) div step)"
proof -
  have "int j * step < n \<longleftrightarrow> int j * step \<le> n - 1" by linarith
  also have "\<dots> \<longleftrightarrow> int j * step + step \<le> n + step - 1" by linarith
  also have "\<dots> \<longleftrightarrow> (int j + 1) * step \<le> n + step - 1" by (simp add: algebra_simps)
  also have "\<dots> \<longleftrightarrow> int j + 1 \<le> (n + step - 1) div step"
    using assms by (simp add: int_le_div_iff)
  finally show ?thesis by linarith
qed

lemma for_loop_from:
  assumes step: "0 < step"
    and body: "\<And>i s. body i s = Some (s @ f i)"
  shows "cnt = nat ((n + step - 1) div step) \<Longrightarrow> j \<le> cnt \<Longrightarrow>
         for_loop (int j * step) n step body s
           = Some (s @ concat (map (\<lambda>j. f (int j * step)) [j..<cnt]))"
proof (induction "cnt - j" arbitrary: j s)
  case 0
  then have "j = cnt" by simp
  then have "\<not> int j * step < n" using chunk_count_less [OF step, of j n] 0 by simp
  then show ?case using \<open>j = cnt\<close> by (subst for_loop.simps) simp
next
  case (Suc d)
  then have lt: "j < cnt" by linarith
  then have c: "int j * step < n" using chunk_count_less [OF step, of j n] Suc by simp
  have nxt: "int j * step + step = int (Suc j) * step" by (simp add: algebra_simps)
  have IH: "for_loop (int (Suc j) * step) n step body (s @ f (int j * step))
              = Some ((s @ f (int j * step)) @ concat (map (\<lambda>j. f (int j * step)) [Suc j..<cnt]))"
    using Suc lt by (intro Suc.hyps) auto
  show ?case
    using c lt IH by (subst for_loop.simps) (simp add: body nxt upt_conv_Cons del: of_nat_Suc)
qed

lemma for_loop_chunks:
  assumes "0 < step" and "\<And>i s. body i s = Some (s @ f i)"
  shows "for_loop 0 n step body s = Some (s @ concat (map f (chunks n step)))"
  using for_loop_from [of step body f "nat ((n + step - 1) div step)" n 0 s] assms
  by (simp add: chunks_def comp_def map_concat)

lemma for_loop_returns:
  assumes step: "0 < step" and body: "\<And>i s. \<exists>s'. body i s = Some s'"
  shows "\<exists>s'. for_loop i n step body s = Some s'"
proof (induction "nat (n - i)" arbitrary: i s rule: less_induct)
  case less
  show ?case
  proof (cases "i < n")
    case False
    then show ?thesis by (subst for_loop.simps) simp
  next
    case True
    from body obtain s1 where s1: "body i s = Some s1" by blast
    have "nat (n - (i + step)) < nat (n - i)" using True step by simp
    from less [OF this] obtain s' where "for_loop (i + step) n step body s1 = Some s'" by blast
    then show ?thesis using True s1 by (subst for_loop.simps) simp
  qed
qed

subsection \<open>The launcher returns\<close>

lemma run_block_returns:
  assumes "0 < MTILE g" and "0 < KStep c"
  shows "\<exists>evs'. run_block g c p blk_m blk_n blk_msize blk_nsize tmpA tmpB tmpC evs = Some evs'"
proof -
  have m: "\<exists>s'. run_block_mtile g c blk_m blk_msize tmpA tmpC np iterk kr kp i s = Some s'"
    for np iterk kr kp i s
    by (simp add: run_block_mtile_def Let_def)
  have k: "\<exists>s'. run_block_kchunk g c kk blk_m blk_n blk_msize tmpA tmpB tmpC np iterk s = Some s'"
    for kk np iterk s
    unfolding run_block_kchunk_def Let_def
    by (rule for_loop_returns [OF assms(1)]) (rule m)
  obtain evs1 where "for_loop 0 (K p) (KStep c)
      (run_block_kchunk g c (K p) blk_m blk_n blk_msize tmpA tmpB tmpC (padto blk_nsize (NTILE g)))
      evs = Some evs1"
    using for_loop_returns [OF assms(2), of
        "run_block_kchunk g c (K p) blk_m blk_n blk_msize tmpA tmpB tmpC (padto blk_nsize (NTILE g))"
        0 "K p" evs] k
    by blast
  then show ?thesis by (simp add: run_block_def Let_def)
qed

lemma launch_returns:
  assumes "0 < MTILE g" and "0 < KStep c" and "0 < MStep c" and "0 < NStep c"
  shows "\<exists>evs'. launch g c p evs = Some evs'"
  unfolding launch_def Let_def
  by (intro for_loop_returns [OF assms(4)] for_loop_returns [OF assms(3)]
        run_block_returns [OF assms(1,2)])

subsection \<open>The code makes the calls the specification lists\<close>

lemma narrow_int_id: "- 2147483648 \<le> x \<Longrightarrow> x \<le> 2147483647 \<Longrightarrow> narrow_int x = x"
  by (simp add: narrow_int_def)

lemma no_overflow_stride:
  assumes "no_overflow g c p" and "0 < NStep c"
  shows "narrow_int (NStep c * sizeof_CType g) = NStep c * sizeof_CType g"
proof -
  have "0 \<le> NStep c * sizeof_CType g" "NStep c * sizeof_CType g \<le> 2147483647"
    using assms by (simp_all add: no_overflow_def INT_MAX_def)
  then show ?thesis by (intro narrow_int_id) simp_all
qed

lemma run_block_mtile_calls:
  assumes "narrow_int (NStep c * sizeof_CType g) = NStep c * sizeof_CType g"
  shows
  "run_block_mtile g c blk_m blk_msize tmpA tmpC n_padded iterk k_remain
       (padto_le k_remain (KTILE g)) i evs
     = Some (evs @ split_calls g c blk_m blk_msize tmpA tmpC n_padded iterk k_remain i)"
proof -
  have tail: "k_remain - k_remain div KTILE g * KTILE g = k_remain mod KTILE g"
    by (simp add: minus_div_mult_eq_mod)
  have al: "(k_remain mod KTILE g \<noteq> 0) = (\<not> KTILE g dvd k_remain)"
    by (simp add: dvd_eq_mod_eq_0)
  show ?thesis
    unfolding run_block_mtile_def split_calls_def padto_le_def Let_def tail al assms
    by (auto simp: dvd_div_eq_0_iff)
qed

lemma run_block_kchunk_calls:
  assumes "0 < MTILE g"
    and "narrow_int (NStep c * sizeof_CType g) = NStep c * sizeof_CType g"
  shows "run_block_kchunk g c kk blk_m blk_n blk_msize tmpA tmpB tmpC n_padded iterk evs
     = Some (evs @ kchunk_calls g c kk blk_m blk_n blk_msize tmpA tmpB tmpC n_padded iterk)"
  unfolding run_block_kchunk_def kchunk_calls_def Let_def
  by (subst for_loop_chunks [OF assms(1) run_block_mtile_calls [OF assms(2)]]) simp

lemma run_block_calls:
  assumes "0 < MTILE g" and "0 < KStep c"
    and "narrow_int (NStep c * sizeof_CType g) = NStep c * sizeof_CType g"
  shows "run_block g c p blk_m blk_n blk_msize blk_nsize tmpA tmpB tmpC evs
     = Some (evs @ tile_calls g c p blk_m blk_n blk_msize blk_nsize tmpA tmpB tmpC)"
  unfolding run_block_def tile_calls_def Let_def
  by (subst for_loop_chunks [OF assms(2) run_block_kchunk_calls [OF assms(1,3)]]) simp

lemma launch_calls_eq:
  assumes "0 < MTILE g" and "0 < KStep c" and "0 < MStep c" and "0 < NStep c"
    and "narrow_int (NStep c * sizeof_CType g) = NStep c * sizeof_CType g"
  shows "launch g c p evs = Some (evs @ launch_calls g c p)"
proof -
  let ?tmpA = "NStep c * KStep c * sizeof_BType g"
  let ?tmpC = "?tmpA + MTILE g * KStep c * sizeof_AType g"
  have inner: "for_loop 0 (launch_rows c p) (MStep c)
         (\<lambda>iterm evs. run_block g c p iterm itern
              (remainsize iterm (launch_rows c p) (MStep c)) nr ?tmpA 0 ?tmpC evs) evs'
       = Some (evs' @ concat (map (\<lambda>iterm. tile_calls g c p iterm itern
              (remainsize iterm (launch_rows c p) (MStep c)) nr ?tmpA 0 ?tmpC)
              (chunks (launch_rows c p) (MStep c))))" for itern nr evs'
    by (rule for_loop_chunks [OF assms(3)]) (rule run_block_calls [OF assms(1,2,5)])
  show ?thesis
    unfolding launch_def launch_calls_def Let_def
      launch_rows_def [symmetric] launch_cols_def [symmetric]
    by (simp add: inner for_loop_chunks [OF assms(4)])
qed

lemma epilogue_split: "filter is_epilogue (split_calls g c a b d e f h k i) = []"
  by (simp add: split_calls_def Let_def)

lemma epilogue_kchunk: "filter is_epilogue (kchunk_calls g c kk a b d e f h n i) = []"
  by (simp add: kchunk_calls_def Let_def filter_concat comp_def epilogue_split)

lemma epilogue_tile:
  "filter is_epilogue (tile_calls g c p bm bn ms ns tA tB tC)
     = [EpilogueForward tC (NStep c) (rowidx c + bm) (colidx c + bn) ms ns]"
  by (simp add: tile_calls_def filter_concat comp_def epilogue_kchunk)

lemma length_concat_const:
  "(\<And>x. x \<in> set xs \<Longrightarrow> length (f x) = k) \<Longrightarrow> length (concat (map f xs)) = length xs * k"
  by (induction xs) auto

lemma epilogue_count:
  "length (filter is_epilogue (launch_calls g c p))
     = length (chunks (launch_cols c p) (NStep c)) * length (chunks (launch_rows c p) (MStep c))"
  unfolding launch_calls_def Let_def filter_concat map_map comp_def epilogue_tile
  by (simp add: length_concat_const)

lemma chunks_simps:
  "chunks 1 1 = [0]" "chunks 3 4 = [0]" "chunks 1 2 = [0]" "chunks 7 4 = [0, 4]" "chunks 3 2 = [0, 2]"
  "chunks 2 2 = [0]"
  by (simp_all add: chunks_def upt_conv_Cons)

text \<open>
  Claim C1. For every rectangle and every \<open>Param\<close>, with positive steps and tile sizes
  and no overflow in the \<open>int\<close> computations of the launch (\<open>no_overflow\<close>),
  \<open>launch\<close> returns, and the calls it makes are exactly those of \<open>launch_calls\<close>: the
  output tiles are visited with the outer loop over N in \<open>NStep\<close> chunks and the inner
  loop over M in \<open>MStep\<close> chunks; each tile runs over K in \<open>KStep\<close> chunks; in each
  chunk the activation fetch is split into the largest multiple of \<open>KTILE\<close>, given to
  one micro-kernel call, and the rest, given to a second partial call that is made if
  and only if \<open>KTILE\<close> does not divide the chunk; the epilogue is called after the K
  loop, once for each output tile.
\<close>

theorem launch_tiles:
  assumes "0 < MTILE g" and "0 < KStep c" and "0 < MStep c" and "0 < NStep c"
    and "0 < KTILE g" and "0 < NTILE g" and "no_overflow g c p"
  shows "launch g c p evs = Some (evs @ launch_calls g c p)
       \<and> length (filter is_epilogue (launch_calls g c p))
           = length (chunks (launch_cols c p) (NStep c))
             * length (chunks (launch_rows c p) (MStep c))"
  using launch_calls_eq [OF assms(1-4) no_overflow_stride [OF assms(7,4)]] epilogue_count
  by simp

theorem launch_tiles_witness:
  "no_overflow core_2x2x2 small_config small_param
   \<and> launch core_2x2x2 small_config small_param [] = Some small_calls
   \<and> length (filter is_epilogue small_calls) = 1
   \<and> no_overflow core_2x2x2 grid_config grid_param
   \<and> launch core_2x2x2 grid_config grid_param []
       = Some (launch_calls core_2x2x2 grid_config grid_param)
   \<and> filter is_epilogue (launch_calls core_2x2x2 grid_config grid_param)
       = [EpilogueForward 32 2 0 0 2 2, EpilogueForward 32 2 2 0 1 2,
          EpilogueForward 32 2 0 2 2 1, EpilogueForward 32 2 2 2 1 1]"
proof -
  have no: "no_overflow core_2x2x2 small_config small_param"
    "no_overflow core_2x2x2 grid_config grid_param"
    by (simp_all add: no_overflow_def INT_MAX_def core_2x2x2_def small_config_def
          small_param_def grid_config_def grid_param_def)
  have small: "launch core_2x2x2 small_config small_param [] = Some small_calls
             \<and> length (filter is_epilogue small_calls) = 1"
    using launch_tiles [of core_2x2x2 small_config small_param "[]"] no(1)
    by (simp add: core_2x2x2_def small_config_def small_param_def small_calls_def launch_calls_def
        launch_rows_def launch_cols_def remainsize_def chunks_simps tile_calls_def
        kchunk_calls_def split_calls_def padto_def)
  have grid: "launch core_2x2x2 grid_config grid_param []
                = Some (launch_calls core_2x2x2 grid_config grid_param)"
    using launch_tiles [of core_2x2x2 grid_config grid_param "[]"] no(2)
    by (simp add: core_2x2x2_def grid_config_def)
  have "filter is_epilogue (launch_calls core_2x2x2 grid_config grid_param)
       = [EpilogueForward 32 2 0 0 2 2, EpilogueForward 32 2 2 0 1 2,
          EpilogueForward 32 2 0 2 2 1, EpilogueForward 32 2 2 2 1 1]"
    by (simp add: core_2x2x2_def grid_config_def grid_param_def launch_calls_def
        launch_rows_def launch_cols_def remainsize_def chunks_simps filter_concat comp_def
        epilogue_tile)
  with small grid no show ?thesis by simp
qed

section \<open>Properties of the interfaces\<close>

subsection \<open>The parallel region\<close>

lemma those_eq_Some: "those xs = Some ys \<longleftrightarrow> xs = map Some ys"
  by (induction xs arbitrary: ys) (auto split: option.splits)

lemma omp_parallel_Some:
  assumes "omp_parallel n body = Some logs"
  shows "length logs = nat n" and "\<And>t. 0 \<le> t \<Longrightarrow> t < n \<Longrightarrow> body t = Some (logs ! nat t)"
proof -
  from assms have eq: "map (\<lambda>t. body (int t)) [0..<nat n] = map Some logs"
    by (simp add: omp_parallel_def those_eq_Some)
  then show len: "length logs = nat n"
    by (metis length_map length_upt minus_nat.diff_0)
  fix t :: int assume t: "0 \<le> t" "t < n"
  then have "nat t < nat n" by simp
  then have "map (\<lambda>t. body (int t)) [0..<nat n] ! nat t = body (int (nat t))" by simp
  moreover have "map Some logs ! nat t = Some (logs ! nat t)"
    using \<open>nat t < nat n\<close> len by simp
  ultimately show "body t = Some (logs ! nat t)" using eq t by simp
qed

lemma map_all_Some:
  "\<forall>x \<in> set xs. \<exists>r. f x = Some r \<Longrightarrow> map f xs = map Some (map (\<lambda>x. the (f x)) xs)"
  by (induction xs) auto

lemma omp_parallel_returns:
  assumes "\<And>t. 0 \<le> t \<Longrightarrow> t < n \<Longrightarrow> \<exists>r. body t = Some r"
  shows "\<exists>logs. omp_parallel n body = Some logs"
proof -
  have "\<forall>t \<in> set [0..<nat n]. \<exists>r. body (int t) = Some r"
    using assms by auto
  then have "map (\<lambda>t. body (int t)) [0..<nat n]
               = map Some (map (\<lambda>t. the (body (int t))) [0..<nat n])"
    by (rule map_all_Some)
  then show ?thesis unfolding omp_parallel_def those_eq_Some by blast
qed

lemma in_concat_nth:
  "x \<in> set (concat xss) \<Longrightarrow> \<exists>i < length xss. x \<in> set (xss ! i)"
  by (auto simp: in_set_conv_nth) blast

lemma logs_thread:
  assumes "length logs = nat n" and "x \<in> set (concat logs)"
  obtains t where "0 \<le> t" and "t < n" and "x \<in> set (logs ! nat t)"
proof -
  from in_concat_nth [OF assms(2)] obtain i where "i < length logs" "x \<in> set (logs ! i)" by blast
  then have "0 \<le> int i" "int i < n" "x \<in> set (logs ! nat (int i))" using assms(1) by auto
  then show thesis by (rule that)
qed

subsection \<open>What a thread does\<close>

lemma compute_thread_launches:
  assumes "compute_thread g ops cb p paral tidx = Some cs" and "Launch c evs \<in> set cs"
  shows "0 < rowsize c \<and> 0 < colsize c
       \<and> getIndex ops paral tidx = (rowidx c, colidx c, rowsize c, colsize c)
       \<and> StackSize c = mL2Cache cb"
  using assms unfolding compute_thread_def Let_def
  by (auto split: prod.splits if_splits Option.bind_splits)

lemma compute_thread_dq_launches:
  assumes "compute_thread_dq g ops cb p paral tidx = Some cs" and "Launch c evs \<in> set cs"
  shows "0 < rowsize c \<and> 0 < colsize c
       \<and> getIndex ops paral tidx = (rowidx c, colidx c, rowsize c, colsize c)
       \<and> StackSize c = mL2Cache cb"
  using assms unfolding compute_thread_dq_def Let_def
  by (auto split: prod.splits if_splits Option.bind_splits)

lemma compute_thread_skips:
  assumes "getIndex ops paral tidx = (ri, ci, rs, cs)" and "rs \<le> 0 \<or> cs \<le> 0"
  shows "compute_thread g ops cb p paral tidx = Some []"
    and "compute_thread_dq g ops cb p paral tidx = Some [QuantizeT tidx, Barrier]"
  using assms by (auto simp: compute_thread_def compute_thread_dq_def)

lemma compute_thread_returns:
  assumes "0 < MTILE g" and "0 < getMStep ops paral" and "0 < getNStep ops paral"
    and "0 < getKStep ops paral"
  shows "\<exists>r. compute_thread g ops cb p paral t = Some r"
    and "\<exists>r. compute_thread_dq g ops cb p paral t = Some r"
proof -
  have l: "\<exists>evs. launch g \<lparr>rowidx = ri, colidx = ci, rowsize = rs, colsize = cs,
                MStep = getMStep ops paral, NStep = getNStep ops paral,
                KStep = getKStep ops paral, StackSize = mL2Cache cb\<rparr> p [] = Some evs"
    for ri ci rs cs
    using assms by (intro launch_returns) simp_all
  obtain ri ci rs cs where i: "getIndex ops paral t = (ri, ci, rs, cs)"
    by (cases "getIndex ops paral t")
  from l [of ri ci rs cs] obtain evs where
    "launch g \<lparr>rowidx = ri, colidx = ci, rowsize = rs, colsize = cs,
                MStep = getMStep ops paral, NStep = getNStep ops paral,
                KStep = getKStep ops paral, StackSize = mL2Cache cb\<rparr> p [] = Some evs"
    by blast
  then show "\<exists>r. compute_thread g ops cb p paral t = Some r"
    and "\<exists>r. compute_thread_dq g ops cb p paral t = Some r"
    by (simp_all add: compute_thread_def compute_thread_dq_def Let_def i)
qed

lemma compute_logs:
  assumes "compute g ops cb p paral0 = Some (st, logs)"
  shows "st = JblasSuccess" and "length logs = nat (mNumThreads cb)"
    and "\<And>t. 0 \<le> t \<Longrightarrow> t < mNumThreads cb \<Longrightarrow>
           compute_thread g ops cb p (plan_of ops cb p paral0) t = Some (logs ! nat t)"
proof -
  obtain ch paral where u: "update ops paral0 (M p) (N p) (K p) (mNumThreads cb) = (ch, paral)"
    by (cases "update ops paral0 (M p) (N p) (K p) (mNumThreads cb)")
  with assms have r: "omp_parallel (mNumThreads cb) (compute_thread g ops cb p paral) = Some logs"
    and st: "st = JblasSuccess"
    by (auto simp: compute_def split: Option.bind_splits)
  show "st = JblasSuccess" by (rule st)
  show "length logs = nat (mNumThreads cb)" by (rule omp_parallel_Some(1) [OF r])
  show "compute_thread g ops cb p (plan_of ops cb p paral0) t = Some (logs ! nat t)"
    if "0 \<le> t" "t < mNumThreads cb" for t
    using omp_parallel_Some(2) [OF r that] by (simp add: plan_of_def u)
qed

lemma compute_dq_logs:
  assumes "compute_dq g ops cb p paral0 = Some (st, logs)"
  shows "st = JblasSuccess" and "length logs = nat (mNumThreads cb)"
    and "\<And>t. 0 \<le> t \<Longrightarrow> t < mNumThreads cb \<Longrightarrow>
           compute_thread_dq g ops cb p (plan_of ops cb p paral0) t = Some (logs ! nat t)"
proof -
  obtain ch paral where u: "update ops paral0 (M p) (N p) (K p) (mNumThreads cb) = (ch, paral)"
    by (cases "update ops paral0 (M p) (N p) (K p) (mNumThreads cb)")
  with assms have r: "omp_parallel (mNumThreads cb) (compute_thread_dq g ops cb p paral) = Some logs"
    and st: "st = JblasSuccess"
    by (auto simp: compute_dq_def split: Option.bind_splits)
  show "st = JblasSuccess" by (rule st)
  show "length logs = nat (mNumThreads cb)" by (rule omp_parallel_Some(1) [OF r])
  show "compute_thread_dq g ops cb p (plan_of ops cb p paral0) t = Some (logs ! nat t)"
    if "0 \<le> t" "t < mNumThreads cb" for t
    using omp_parallel_Some(2) [OF r that] by (simp add: plan_of_def u)
qed

lemma launch_example: "launch core_2x2x2 small_config small_param [] = Some small_calls"
  by (subst launch_calls_eq)
     (simp_all add: core_2x2x2_def small_config_def small_param_def small_calls_def
      launch_calls_def launch_rows_def launch_cols_def remainsize_def chunks_simps
      tile_calls_def kchunk_calls_def split_calls_def padto_def narrow_int_def)

lemma launch_example_unfolded:
  "launch core_2x2x2 \<lparr>rowidx = 0, colidx = 0, rowsize = 1, colsize = 1,
                        MStep = 1, NStep = 1, KStep = 4, StackSize = 1048576\<rparr>
          small_param [] = Some small_calls"
  using launch_example by (simp add: small_config_def)

lemma compute_example:
  "compute core_2x2x2 (table_plan 1 1 4) two_threads small_param two_rectangles
     = Some (JblasSuccess, [[Launch small_config small_calls], []])"
  by (simp add: compute_def table_plan_def two_threads_def two_rectangles_def omp_parallel_def
        compute_thread_def upt_conv_Cons launch_example_unfolded)
     (simp add: small_config_def)

lemma compute_dq_example:
  "compute_dq core_2x2x2 (table_plan 1 1 4) two_threads small_param two_rectangles
     = Some (JblasSuccess,
         [[QuantizeT 0, Barrier, Launch small_config small_calls], [QuantizeT 1, Barrier]])"
  by (simp add: compute_dq_def table_plan_def two_threads_def two_rectangles_def omp_parallel_def
        compute_thread_dq_def upt_conv_Cons launch_example_unfolded)
     (simp add: small_config_def)

text \<open>
  Claim C6. In both interfaces, a thread whose rectangle in the plan has no rows or no
  columns computes no tile: its part of the region holds no call of \<open>launch\<close> (in the
  dynamic-quantisation interface it still quantises and waits at the barrier), and
  every call of \<open>launch\<close> that \<open>compute\<close> makes has a rectangle with at least one row and
  one column.
\<close>

theorem empty_rectangle_skipped:
  "(compute g ops cb p paral0 = Some (st, logs) \<longrightarrow>
      (\<forall>c evs. Launch c evs \<in> set (concat logs) \<longrightarrow> 0 < rowsize c \<and> 0 < colsize c)
    \<and> (\<forall>tidx. 0 \<le> tidx \<and> tidx < mNumThreads cb
           \<and> empty_rectangle (getIndex ops (plan_of ops cb p paral0) tidx)
         \<longrightarrow> logs ! nat tidx = []))
 \<and> (compute_dq g ops cb p paral0 = Some (st', logs') \<longrightarrow>
      (\<forall>c evs. Launch c evs \<in> set (concat logs') \<longrightarrow> 0 < rowsize c \<and> 0 < colsize c)
    \<and> (\<forall>tidx. 0 \<le> tidx \<and> tidx < mNumThreads cb
           \<and> empty_rectangle (getIndex ops (plan_of ops cb p paral0) tidx)
         \<longrightarrow> logs' ! nat tidx = [QuantizeT tidx, Barrier]))"
proof (intro conjI impI allI)
  assume r: "compute g ops cb p paral0 = Some (st, logs)"
  { fix c evs assume "Launch c evs \<in> set (concat logs)"
    then obtain t where t: "0 \<le> t" "t < mNumThreads cb" "Launch c evs \<in> set (logs ! nat t)"
      using logs_thread [OF compute_logs(2) [OF r]] by blast
    from compute_thread_launches [OF compute_logs(3) [OF r t(1,2)] t(3)]
    show "0 < rowsize c" and "0 < colsize c" by simp_all }
  { fix tidx
    assume a: "0 \<le> tidx \<and> tidx < mNumThreads cb
                 \<and> empty_rectangle (getIndex ops (plan_of ops cb p paral0) tidx)"
    obtain ri ci rs cs where gi: "getIndex ops (plan_of ops cb p paral0) tidx = (ri, ci, rs, cs)"
      by (cases "getIndex ops (plan_of ops cb p paral0) tidx")
    with a have "rs \<le> 0 \<or> cs \<le> 0" by (simp add: empty_rectangle_def)
    from compute_thread_skips(1) [OF gi this] compute_logs(3) [OF r, of tidx] a
    show "logs ! nat tidx = []" by simp }
next
  assume r: "compute_dq g ops cb p paral0 = Some (st', logs')"
  { fix c evs assume "Launch c evs \<in> set (concat logs')"
    then obtain t where t: "0 \<le> t" "t < mNumThreads cb" "Launch c evs \<in> set (logs' ! nat t)"
      using logs_thread [OF compute_dq_logs(2) [OF r]] by blast
    from compute_thread_dq_launches [OF compute_dq_logs(3) [OF r t(1,2)] t(3)]
    show "0 < rowsize c" and "0 < colsize c" by simp_all }
  { fix tidx
    assume a: "0 \<le> tidx \<and> tidx < mNumThreads cb
                 \<and> empty_rectangle (getIndex ops (plan_of ops cb p paral0) tidx)"
    obtain ri ci rs cs where gi: "getIndex ops (plan_of ops cb p paral0) tidx = (ri, ci, rs, cs)"
      by (cases "getIndex ops (plan_of ops cb p paral0) tidx")
    with a have "rs \<le> 0 \<or> cs \<le> 0" by (simp add: empty_rectangle_def)
    from compute_thread_skips(2) [OF gi this] compute_dq_logs(3) [OF r, of tidx] a
    show "logs' ! nat tidx = [QuantizeT tidx, Barrier]" by simp }
qed

theorem empty_rectangle_skipped_witness:
  "compute core_2x2x2 (table_plan 1 1 4) two_threads small_param two_rectangles
     = Some (JblasSuccess, [[Launch small_config small_calls], []])
   \<and> compute_dq core_2x2x2 (table_plan 1 1 4) two_threads small_param two_rectangles
     = Some (JblasSuccess,
         [[QuantizeT 0, Barrier, Launch small_config small_calls], [QuantizeT 1, Barrier]])
   \<and> empty_rectangle (getIndex (table_plan 1 1 4)
        (plan_of (table_plan 1 1 4) two_threads small_param two_rectangles) 1)
   \<and> 0 < rowsize small_config \<and> 0 < colsize small_config"
  using empty_rectangle_skipped [of core_2x2x2 "table_plan 1 1 4" two_threads small_param
      two_rectangles JblasSuccess "[[Launch small_config small_calls], []]" JblasSuccess
      "[[QuantizeT 0, Barrier, Launch small_config small_calls], [QuantizeT 1, Barrier]]"]
    compute_example compute_dq_example
  by (simp add: plan_of_def table_plan_def empty_rectangle_def two_rectangles_def
        small_config_def)

text \<open>
  Claim C4. \<open>compute\<close> has one status to return, success, in both interfaces: whenever
  it returns, the status is \<open>JblasSuccess\<close>, and it does return when the tile height and
  the steps of the plan are positive. A mismatch between the instruction set of the
  micro-kernel and the run-time instruction set is no status of \<open>compute\<close>: the static
  assertion rejects it when the launcher is instantiated.
\<close>

theorem compute_status:
  "(compute g ops cb p paral0 = Some (st, logs) \<longrightarrow> st = JblasSuccess)
 \<and> (compute_dq g ops cb p paral0 = Some (st', logs') \<longrightarrow> st' = JblasSuccess)
 \<and> (0 < MTILE g \<and> 0 < getMStep ops (plan_of ops cb p paral0)
      \<and> 0 < getNStep ops (plan_of ops cb p paral0) \<and> 0 < getKStep ops (plan_of ops cb p paral0)
     \<longrightarrow> (\<exists>l. compute g ops cb p paral0 = Some (JblasSuccess, l))
       \<and> (\<exists>l. compute_dq g ops cb p paral0 = Some (JblasSuccess, l)))
 \<and> (GemmLauncherPackWeight rt g = None \<longleftrightarrow> rt < ISA g)
 \<and> (GemmLauncherPackWeight rt g = Some g \<longleftrightarrow> ISA g \<le> rt)"
proof (intro conjI impI)
  show "st = JblasSuccess" if "compute g ops cb p paral0 = Some (st, logs)"
    using compute_logs(1) [OF that] .
  show "st' = JblasSuccess" if "compute_dq g ops cb p paral0 = Some (st', logs')"
    using compute_dq_logs(1) [OF that] .
  show "(GemmLauncherPackWeight rt g = None) = (rt < ISA g)"
    and "(GemmLauncherPackWeight rt g = Some g) = (ISA g \<le> rt)"
    by (auto simp: GemmLauncherPackWeight_def)
next
  assume pos: "0 < MTILE g \<and> 0 < getMStep ops (plan_of ops cb p paral0)
      \<and> 0 < getNStep ops (plan_of ops cb p paral0) \<and> 0 < getKStep ops (plan_of ops cb p paral0)"
  obtain ch paral where u: "update ops paral0 (M p) (N p) (K p) (mNumThreads cb) = (ch, paral)"
    by (cases "update ops paral0 (M p) (N p) (K p) (mNumThreads cb)")
  then have pl: "plan_of ops cb p paral0 = paral" by (simp add: plan_of_def)
  from pos have "\<exists>r. compute_thread g ops cb p paral t = Some r" for t
    unfolding pl by (intro compute_thread_returns) simp_all
  then have "\<exists>l. omp_parallel (mNumThreads cb) (compute_thread g ops cb p paral) = Some l"
    by (intro omp_parallel_returns)
  then obtain l where "omp_parallel (mNumThreads cb) (compute_thread g ops cb p paral) = Some l" ..
  then show "\<exists>l. compute g ops cb p paral0 = Some (JblasSuccess, l)"
    by (simp add: compute_def u)
  from pos have "\<exists>r. compute_thread_dq g ops cb p paral t = Some r" for t
    unfolding pl by (intro compute_thread_returns) simp_all
  then have "\<exists>l. omp_parallel (mNumThreads cb) (compute_thread_dq g ops cb p paral) = Some l"
    by (intro omp_parallel_returns)
  then obtain l where "omp_parallel (mNumThreads cb) (compute_thread_dq g ops cb p paral) = Some l" ..
  then show "\<exists>l. compute_dq g ops cb p paral0 = Some (JblasSuccess, l)"
    by (simp add: compute_dq_def u)
qed

theorem compute_status_witness:
  "(0 < MTILE core_2x2x2
    \<and> 0 < getMStep (table_plan 1 1 4)
            (plan_of (table_plan 1 1 4) two_threads small_param two_rectangles)
    \<and> 0 < getNStep (table_plan 1 1 4)
            (plan_of (table_plan 1 1 4) two_threads small_param two_rectangles)
    \<and> 0 < getKStep (table_plan 1 1 4)
            (plan_of (table_plan 1 1 4) two_threads small_param two_rectangles))
 \<and> ((\<exists>l. compute core_2x2x2 (table_plan 1 1 4) two_threads small_param two_rectangles
            = Some (JblasSuccess, l))
    \<and> (\<exists>l. compute_dq core_2x2x2 (table_plan 1 1 4) two_threads small_param two_rectangles
            = Some (JblasSuccess, l)))"
  (is "?pos \<and> ?ret")
proof -
  have pos: ?pos by (simp add: core_2x2x2_def table_plan_def)
  have "?pos \<longrightarrow> ?ret"
    using compute_status [of core_2x2x2 "table_plan 1 1 4" two_threads small_param
      two_rectangles JblasSuccess "[]" JblasSuccess "[]" 0]
    by (elim conjE) assumption
  with pos show ?thesis by (rule_tac conjI) (assumption, erule mp, assumption)
qed

section \<open>Properties of the scratch buffer\<close>

lemma chunks_mem:
  assumes "0 < step" and "i \<in> set (chunks n step)"
  shows "0 \<le> i" and "i < n"
proof -
  from assms(2) obtain j where j: "j < nat ((n + step - 1) div step)" and i: "i = int j * step"
    by (auto simp: chunks_def)
  show "0 \<le> i" using i assms(1) by simp
  show "i < n" using chunk_count_less [OF assms(1), of j n] j i by simp
qed

lemma remainsize_bounds:
  assumes "0 < step" and "i < n"
  shows "0 < remainsize i n step" and "remainsize i n step \<le> step"
    and "i + remainsize i n step \<le> n"
  using assms by (auto simp: remainsize_def)

lemma padto_bounds:
  assumes "0 < b" and "b dvd s" and "0 \<le> a" and "a \<le> s"
  shows "0 \<le> padto a b" and "padto a b \<le> s"
proof -
  from assms(2) obtain q where s: "s = q * b" by (metis dvd_def mult.commute)
  have "0 \<le> (a + b - 1) div b" using assms by (simp add: pos_imp_zdiv_nonneg_iff)
  then show "0 \<le> padto a b" using assms(1) by (simp add: padto_def)
  have "a + b - 1 < (q + 1) * b" using assms s by (simp add: algebra_simps)
  then have "\<not> q + 1 \<le> (a + b - 1) div b"
    using int_le_div_iff [OF assms(1), of "q + 1" "a + b - 1"] by simp
  then have "(a + b - 1) div b \<le> q" by simp
  then have "(a + b - 1) div b * b \<le> q * b" using assms(1) by (simp add: mult_right_mono)
  then show "padto a b \<le> s" by (simp add: padto_def s)
qed

lemma in_region_GetActivation:
  assumes fit: "tiles_fit g c" and m: "0 \<le> m" "m \<le> MTILE g" and k: "0 \<le> k" "k \<le> KStep c"
  shows "in_region g c (GetActivation (Some (tmpA_offset g c)) m k row kpos)"
proof -
  have "m * k \<le> MTILE g * KStep c" using m k by (intro mult_mono) simp_all
  then have "m * k * sizeof_AType g \<le> MTILE g * KStep c * sizeof_AType g"
    using fit by (simp add: tiles_fit_def mult_right_mono)
  moreover have "0 \<le> NStep c * KStep c * sizeof_BType g"
    using fit by (simp add: tiles_fit_def)
  moreover have "0 \<le> MStep c * NStep c * sizeof_CType g"
    using fit by (simp add: tiles_fit_def)
  moreover have "scratch_bytes g c \<le> StackSize c" using fit by (simp add: tiles_fit_def)
  ultimately show ?thesis
    by (simp add: in_region_def tmpA_offset_def tmpC_offset_def scratch_bytes_def)
qed

lemma in_region_GetWeight:
  assumes fit: "tiles_fit g c" and kp: "0 \<le> kp" "kp \<le> KStep c" and np: "0 \<le> np" "np \<le> NStep c"
  shows "in_region g c (GetWeight 0 kp np kpos col)"
proof -
  have "kp * np \<le> KStep c * NStep c" using kp np by (intro mult_mono) simp_all
  then have "kp * np * sizeof_BType g \<le> NStep c * KStep c * sizeof_BType g"
    using fit by (simp add: tiles_fit_def mult_right_mono mult.commute)
  moreover have "0 \<le> MTILE g * KStep c * sizeof_AType g"
    using fit by (simp add: tiles_fit_def)
  moreover have "0 \<le> MStep c * NStep c * sizeof_CType g"
    using fit by (simp add: tiles_fit_def)
  moreover have "scratch_bytes g c \<le> StackSize c" using fit by (simp add: tiles_fit_def)
  ultimately show ?thesis
    by (simp add: in_region_def tmpA_offset_def tmpC_offset_def scratch_bytes_def)
qed

lemma c_tile_fits:
  fixes i m n ms ns s :: int
  assumes "0 \<le> i" and "0 < m" and "i + m \<le> ms" and "0 \<le> n" and "n \<le> ns" and "0 < s"
  shows "i * ns * s + (m - 1) * (ns * s) + n * s \<le> ms * ns * s"
proof -
  have "(i + m - 1) * ns + n \<le> (ms - 1) * ns + ns"
    using assms by (intro add_mono mult_right_mono) simp_all
  also have "\<dots> = ms * ns" by (simp add: algebra_simps)
  finally have "((i + m - 1) * ns + n) * s \<le> ms * ns * s"
    using assms(6) by (simp add: mult_right_mono)
  then show ?thesis by (simp add: algebra_simps)
qed

lemma in_region_Forward:
  assumes fit: "tiles_fit g c" and i: "0 \<le> i" and m: "0 < m" "i + m \<le> MStep c"
    and n: "0 \<le> n" "n \<le> NStep c"
  shows "in_region g c (Forward boff (tmpC_offset g c + i * NStep c * sizeof_CType g) m n k
                         (NStep c * sizeof_CType g) kpos)"
proof -
  have pos: "0 < sizeof_CType g" "0 < NStep c" using fit by (simp_all add: tiles_fit_def)
  have "i * NStep c * sizeof_CType g + (m - 1) * (NStep c * sizeof_CType g) + n * sizeof_CType g
          \<le> MStep c * NStep c * sizeof_CType g"
    using i m n pos by (intro c_tile_fits) simp_all
  moreover have "0 \<le> i * NStep c * sizeof_CType g" using i pos by simp
  moreover have "0 \<le> (m - 1) * (NStep c * sizeof_CType g)" using m pos by simp
  moreover have "0 \<le> NStep c * KStep c * sizeof_BType g"
    using fit by (simp add: tiles_fit_def)
  moreover have "0 \<le> MTILE g * KStep c * sizeof_AType g"
    using fit by (simp add: tiles_fit_def)
  moreover have "scratch_bytes g c \<le> StackSize c" using fit by (simp add: tiles_fit_def)
  ultimately show ?thesis
    by (simp add: in_region_def tmpA_offset_def tmpC_offset_def scratch_bytes_def)
qed

lemma in_region_Epilogue:
  assumes fit: "tiles_fit g c" and m: "0 < ms" "ms \<le> MStep c" and n: "0 \<le> ns" "ns \<le> NStep c"
  shows "in_region g c (EpilogueForward (tmpC_offset g c) (NStep c) row col ms ns)"
proof -
  have pos: "0 < sizeof_CType g" "0 < NStep c" using fit by (simp_all add: tiles_fit_def)
  have "0 * NStep c * sizeof_CType g + (ms - 1) * (NStep c * sizeof_CType g) + ns * sizeof_CType g
          \<le> MStep c * NStep c * sizeof_CType g"
    using m n pos by (intro c_tile_fits) simp_all
  then have "((ms - 1) * NStep c + ns) * sizeof_CType g \<le> MStep c * NStep c * sizeof_CType g"
    by (simp add: algebra_simps)
  moreover have "0 \<le> NStep c * KStep c * sizeof_BType g"
    using fit by (simp add: tiles_fit_def)
  moreover have "0 \<le> MTILE g * KStep c * sizeof_AType g"
    using fit by (simp add: tiles_fit_def)
  moreover have "scratch_bytes g c \<le> StackSize c" using fit by (simp add: tiles_fit_def)
  ultimately show ?thesis
    by (simp add: in_region_def tmpA_offset_def tmpC_offset_def scratch_bytes_def)
qed

lemma split_calls_in_region:
  assumes fit: "tiles_fit g c" and i: "0 \<le> i" "i < blk_msize" and ms: "blk_msize \<le> MStep c"
    and n: "0 \<le> n_padded" "n_padded \<le> NStep c" and k: "0 < k_remain" "k_remain \<le> KStep c"
    and e: "e \<in> set (split_calls g c blk_m blk_msize (tmpA_offset g c) (tmpC_offset g c)
                        n_padded iterk k_remain i)"
  shows "in_region g c e"
proof -
  have pos: "0 < MTILE g" "0 < KTILE g" using fit by (simp_all add: tiles_fit_def)
  let ?rows = "remainsize i blk_msize (MTILE g)"
  have rows: "0 < ?rows" "?rows \<le> MTILE g" "i + ?rows \<le> MStep c"
    using remainsize_bounds [OF pos(1) i(2)] ms by simp_all
  let ?al = "k_remain div KTILE g * KTILE g"
  have al: "0 \<le> ?al" "?al \<le> KStep c"
  proof -
    have "0 \<le> k_remain div KTILE g" using k(1) pos(2) by (simp add: pos_imp_zdiv_nonneg_iff)
    then show "0 \<le> ?al" using pos(2) by simp
    have "?al \<le> k_remain" using pos(2) by (simp add: int_le_div_iff [symmetric])
    then show "?al \<le> KStep c" using k(2) by simp
  qed
  let ?tl = "k_remain mod KTILE g"
  have tl: "0 \<le> ?tl" "?tl \<le> KStep c"
  proof -
    show "0 \<le> ?tl" using pos(2) by simp
    have "?tl \<le> k_remain" using k(1) by (simp add: zmod_le_nonneg_dividend)
    then show "?tl \<le> KStep c" using k(2) by simp
  qed
  note A = in_region_GetActivation [OF fit _ rows(2)]
  note F = in_region_Forward [OF fit i(1) rows(1,3) n]
  have N: "in_region g c (GetActivation None m k row kpos)" for m k row kpos
    by (simp add: in_region_def)
  from e show ?thesis
    unfolding split_calls_def Let_def
    using A [OF _ al] A [OF _ tl] F N rows(1) by (auto split: if_splits)
qed

lemma kchunk_calls_in_region:
  assumes fit: "tiles_fit g c" and ms: "blk_msize \<le> MStep c"
    and n: "0 \<le> n_padded" "n_padded \<le> NStep c"
    and it: "iterk \<in> set (chunks kk (KStep c))"
    and e: "e \<in> set (kchunk_calls g c kk blk_m blk_n blk_msize (tmpA_offset g c) 0
                        (tmpC_offset g c) n_padded iterk)"
  shows "in_region g c e"
proof -
  have pos: "0 < MTILE g" "0 < KTILE g" "0 < KStep c" "KTILE g dvd KStep c"
    using fit by (simp_all add: tiles_fit_def)
  let ?kr = "remainsize iterk kk (KStep c)"
  have kr: "0 < ?kr" "?kr \<le> KStep c"
    using remainsize_bounds [OF pos(3) chunks_mem(2) [OF pos(3) it]] by simp_all
  have kp: "0 \<le> padto ?kr (KTILE g)" "padto ?kr (KTILE g) \<le> KStep c"
    using padto_bounds [OF pos(2,4) _ kr(2)] kr(1) by simp_all
  from e consider "e = GetWeight 0 (padto ?kr (KTILE g)) n_padded iterk (colidx c + blk_n)"
    | i where "i \<in> set (chunks blk_msize (MTILE g))"
        "e \<in> set (split_calls g c blk_m blk_msize (tmpA_offset g c) (tmpC_offset g c)
                     n_padded iterk ?kr i)"
    unfolding kchunk_calls_def Let_def by auto
  then show ?thesis
  proof cases
    case 1
    then show ?thesis using in_region_GetWeight [OF fit kp n] by simp
  next
    case 2
    show ?thesis
      using split_calls_in_region [OF fit chunks_mem [OF pos(1) 2(1)] ms n kr 2(2)] .
  qed
qed

lemma tile_calls_in_region:
  assumes fit: "tiles_fit g c" and ms: "0 < blk_msize" "blk_msize \<le> MStep c"
    and ns: "0 < blk_nsize" "blk_nsize \<le> NStep c"
    and e: "e \<in> set (tile_calls g c p blk_m blk_n blk_msize blk_nsize (tmpA_offset g c) 0
                        (tmpC_offset g c))"
  shows "in_region g c e"
proof -
  have pos: "0 < NTILE g" "NTILE g dvd NStep c" using fit by (simp_all add: tiles_fit_def)
  have np: "0 \<le> padto blk_nsize (NTILE g)" "padto blk_nsize (NTILE g) \<le> NStep c"
    using padto_bounds [OF pos _ ns(2)] ns(1) by simp_all
  from e consider
      "e = EpilogueForward (tmpC_offset g c) (NStep c) (rowidx c + blk_m) (colidx c + blk_n)
             blk_msize blk_nsize"
    | iterk where "iterk \<in> set (chunks (K p) (KStep c))"
        "e \<in> set (kchunk_calls g c (K p) blk_m blk_n blk_msize (tmpA_offset g c) 0
                     (tmpC_offset g c) (padto blk_nsize (NTILE g)) iterk)"
    unfolding tile_calls_def by auto
  then show ?thesis
  proof cases
    case 1
    then show ?thesis using in_region_Epilogue [OF fit ms _ ns(2)] ns(1) by simp
  next
    case 2
    show ?thesis using kchunk_calls_in_region [OF fit ms(2) np 2] .
  qed
qed

lemma launch_calls_in_region:
  assumes fit: "tiles_fit g c" and e: "e \<in> set (launch_calls g c p)"
  shows "in_region g c e"
proof -
  have pos: "0 < MStep c" "0 < NStep c" using fit by (simp_all add: tiles_fit_def)
  from e obtain itern iterm where
    n: "itern \<in> set (chunks (launch_cols c p) (NStep c))" and
    m: "iterm \<in> set (chunks (launch_rows c p) (MStep c))" and
    t: "e \<in> set (tile_calls g c p iterm itern
                    (remainsize iterm (launch_rows c p) (MStep c))
                    (remainsize itern (launch_cols c p) (NStep c))
                    (tmpA_offset g c) 0 (tmpC_offset g c))"
    unfolding launch_calls_def Let_def tmpA_offset_def tmpC_offset_def by auto
  show ?thesis
    using tile_calls_in_region [OF fit
        remainsize_bounds(1,2) [OF pos(1) chunks_mem(2) [OF pos(1) m]]
        remainsize_bounds(1,2) [OF pos(2) chunks_mem(2) [OF pos(2) n]] t] .
qed

lemma in_region_in_stack:
  assumes fit: "tiles_fit g c" and r: "in_region g c e"
  shows "in_stack g c e"
proof -
  have "0 \<le> NStep c * KStep c * sizeof_BType g" "0 \<le> MTILE g * KStep c * sizeof_AType g"
    "0 \<le> MStep c * NStep c * sizeof_CType g" "scratch_bytes g c \<le> StackSize c"
    using fit by (simp_all add: tiles_fit_def)
  then have o: "0 \<le> tmpA_offset g c" "tmpA_offset g c \<le> tmpC_offset g c"
    "tmpC_offset g c \<le> scratch_bytes g c" "scratch_bytes g c \<le> StackSize c"
    by (simp_all add: tmpA_offset_def tmpC_offset_def scratch_bytes_def)
  show ?thesis
  proof (cases "scratch_range g e")
    case None
    then show ?thesis by (simp add: in_stack_def)
  next
    case (Some lh)
    obtain lo hi where lh: "lh = (lo, hi)" by (cases lh)
    from r Some lh have "fst (tile_region g c e) \<le> lo" "hi \<le> snd (tile_region g c e)"
      by (simp_all add: in_region_def)
    moreover have "0 \<le> fst (tile_region g c e)" "snd (tile_region g c e) \<le> StackSize c"
      using o by (cases e; simp)+
    ultimately show ?thesis using Some lh by (simp add: in_stack_def)
  qed
qed

lemma compute_thread_launch_log:
  assumes "compute_thread g ops cb p paral tidx = Some cs \<or>
           compute_thread_dq g ops cb p paral tidx = Some cs"
    and "Launch c evs \<in> set cs"
  shows "launch g c p [] = Some evs" and "StackSize c = mL2Cache cb"
  using assms unfolding compute_thread_def compute_thread_dq_def Let_def
  by (auto split: prod.splits if_splits Option.bind_splits)

lemma compute_launch_log:
  assumes "compute g ops cb p paral0 = Some (st, logs) \<or>
           compute_dq g ops cb p paral0 = Some (st, logs)"
    and "Launch c evs \<in> set (concat logs)"
  shows "launch g c p [] = Some evs" and "StackSize c = mL2Cache cb"
proof -
  from assms(1) have len: "length logs = nat (mNumThreads cb)"
    by (auto dest: compute_logs(2) compute_dq_logs(2))
  from logs_thread [OF len assms(2)] obtain t where
    t: "0 \<le> t" "t < mNumThreads cb" "Launch c evs \<in> set (logs ! nat t)" by blast
  from assms(1) have
    "compute_thread g ops cb p (plan_of ops cb p paral0) t = Some (logs ! nat t) \<or>
     compute_thread_dq g ops cb p (plan_of ops cb p paral0) t = Some (logs ! nat t)"
    by (auto dest: compute_logs(3) [OF _ t(1,2)] compute_dq_logs(3) [OF _ t(1,2)])
  from compute_thread_launch_log [OF this t(3)]
  show "launch g c p [] = Some evs" and "StackSize c = mL2Cache cb" by simp_all
qed

subsection \<open>Examples\<close>

lemma launch_tiled: "launch core_2x2x2 tiled_config small_param [] = Some tiled_calls"
  by (subst launch_calls_eq)
     (simp_all add: core_2x2x2_def tiled_config_def small_param_def tiled_calls_def
      launch_calls_def launch_rows_def launch_cols_def remainsize_def chunks_simps
      tile_calls_def kchunk_calls_def split_calls_def padto_def narrow_int_def)

lemma compute_tiled:
  "compute core_2x2x2 (table_plan 2 2 4) one_thread small_param [(0, 0, 1, 1)]
     = Some (JblasSuccess, [[Launch tiled_config tiled_calls]])"
proof -
  have "launch core_2x2x2 \<lparr>rowidx = 0, colidx = 0, rowsize = 1, colsize = 1,
                        MStep = 2, NStep = 2, KStep = 4, StackSize = 1048576\<rparr>
          small_param [] = Some tiled_calls"
    using launch_tiled by (simp add: tiled_config_def)
  then show ?thesis
    by (simp add: compute_def table_plan_def one_thread_def omp_parallel_def
          compute_thread_def upt_conv_Cons)
       (simp add: tiled_config_def)
qed

lemma compute_one_thread:
  assumes "launch g \<lparr>rowidx = ri, colidx = ci, rowsize = rs, colsize = cs,
                      MStep = ms, NStep = ns, KStep = ks, StackSize = l2\<rparr> p [] = Some evs"
    and "0 < rs" and "0 < cs"
  shows "compute g (table_plan ms ns ks) \<lparr>mNumThreads = 1, mL2Cache = l2\<rparr> p [(ri, ci, rs, cs)]
     = Some (JblasSuccess,
         [[Launch \<lparr>rowidx = ri, colidx = ci, rowsize = rs, colsize = cs,
                   MStep = ms, NStep = ns, KStep = ks, StackSize = l2\<rparr> evs]])"
  using assms
  by (simp add: compute_def table_plan_def omp_parallel_def compute_thread_def upt_conv_Cons)

lemma launch_large_steps:
  "launch \<lparr>ISA = 1, MTILE = 2, NTILE = 2, KTILE = 2,
            sizeof_AType = 4, sizeof_BType = 4, sizeof_CType = 4\<rparr>
          \<lparr>rowidx = 0, colidx = 0, rowsize = 1, colsize = 1,
           MStep = 1024, NStep = 1024, KStep = 1024, StackSize = 1048576\<rparr>
          \<lparr>M = 1, N = 1, K = 1\<rparr> []
     = Some [GetWeight 0 2 2 0 0,
             GetActivation (Some 4194304) 1 1 0 0, Forward 0 4202496 1 2 2 4096 0,
             EpilogueForward 4202496 1024 0 0 1 1]"
  by (simp add: launch_def run_block_def run_block_kchunk_def run_block_mtile_def
        for_loop.simps remainsize_def padto_def padto_le_def narrow_int_def)

lemma launch_untiled_n:
  "launch \<lparr>ISA = 1, MTILE = 2, NTILE = 2, KTILE = 2,
            sizeof_AType = 4, sizeof_BType = 4, sizeof_CType = 4\<rparr>
          \<lparr>rowidx = 0, colidx = 0, rowsize = 1, colsize = 1,
           MStep = 1, NStep = 1, KStep = 4, StackSize = 52\<rparr>
          \<lparr>M = 1, N = 1, K = 4\<rparr> []
     = Some [GetWeight 0 4 2 0 0,
             GetActivation (Some 16) 1 4 0 0, Forward 0 48 1 2 4 4 0,
             EpilogueForward 48 1 0 0 1 1]"
  by (simp add: launch_def run_block_def run_block_kchunk_def run_block_mtile_def
        for_loop.simps remainsize_def padto_def padto_le_def narrow_int_def)

lemma launch_untiled_k:
  "launch \<lparr>ISA = 1, MTILE = 1, NTILE = 1, KTILE = 4,
            sizeof_AType = 4, sizeof_BType = 4, sizeof_CType = 4\<rparr>
          \<lparr>rowidx = 0, colidx = 0, rowsize = 1, colsize = 1,
           MStep = 1, NStep = 1, KStep = 1, StackSize = 12\<rparr>
          \<lparr>M = 1, N = 1, K = 1\<rparr> []
     = Some [GetWeight 0 4 1 0 0,
             GetActivation (Some 4) 1 1 0 0, Forward 0 8 1 1 4 4 0,
             EpilogueForward 8 1 0 0 1 1]"
  by (simp add: launch_def run_block_def run_block_kchunk_def run_block_mtile_def
        for_loop.simps remainsize_def padto_def padto_le_def narrow_int_def)

lemma launch_wide_stride:
  "launch \<lparr>ISA = 1, MTILE = 2, NTILE = 1, KTILE = 1,
            sizeof_AType = 4, sizeof_BType = 1, sizeof_CType = 4\<rparr>
          \<lparr>rowidx = 0, colidx = 0, rowsize = 2, colsize = 1,
           MStep = 2, NStep = 536870912, KStep = 1, StackSize = 4831838216\<rparr>
          \<lparr>M = 2, N = 1, K = 1\<rparr> []
     = Some [GetWeight 0 1 1 0 0,
             GetActivation (Some 536870912) 2 1 0 0,
             Forward 0 536870920 2 1 1 (- 2147483648) 0,
             EpilogueForward 536870920 536870912 0 0 2 1]"
  by (simp add: launch_def run_block_def run_block_kchunk_def run_block_mtile_def
        for_loop.simps remainsize_def padto_def padto_le_def narrow_int_def)

subsection \<open>The claim about the scratch buffer\<close>

text \<open>
  Claim C7, as the code has it. The size of the scratch buffer of every \<open>launch\<close> call
  that \<open>compute\<close> makes is the size of the L2 cache that \<open>CpuBase\<close> reports, whatever
  the plan says; the plan reports no workspace size. \<open>launch\<close> sets aside, from the
  start of the buffer and one after the other, \<open>NStep * KStep\<close> elements for the B tile,
  \<open>MTILE * KStep\<close> elements for the A tile and \<open>MStep * NStep\<close> elements for the C
  tile. When these three fit into the buffer together, the element sizes, tile sizes and
  steps are positive, \<open>NStep\<close> and \<open>KStep\<close> are multiples of \<open>NTILE\<close> and \<open>KTILE\<close>, and
  no \<open>int\<close> computation of the launch overflows, then every tile that \<open>launch\<close> hands to
  a prologue, to the micro-kernel or to the epilogue at an address of its own lies in
  the part set aside for tiles of its kind, and so inside the buffer. (A tail call of
  \<open>getActivation\<close> that follows an aligned call is handed the address which that call
  left in \<open>aptr_cache\<close>, not an address of the launcher's own.)
\<close>

theorem scratch_in_stack:
  assumes "compute g ops cb p paral0 = Some (st, logs) \<or>
           compute_dq g ops cb p paral0 = Some (st, logs)"
    and "Launch c evs \<in> set (concat logs)"
  shows "StackSize c = mL2Cache cb
       \<and> (tiles_fit g c \<and> no_overflow g c p \<longrightarrow>
            (\<forall>e \<in> set evs. in_region g c e \<and> in_stack g c e))"
proof (intro conjI impI ballI)
  show "StackSize c = mL2Cache cb" using compute_launch_log(2) [OF assms] .
next
  fix e assume h: "tiles_fit g c \<and> no_overflow g c p" and e: "e \<in> set evs"
  then have fit: "tiles_fit g c" and no: "no_overflow g c p" by simp_all
  have pos: "0 < MTILE g" "0 < KStep c" "0 < MStep c" "0 < NStep c"
    using fit by (simp_all add: tiles_fit_def)
  have "launch g c p [] = Some ([] @ launch_calls g c p)"
    by (rule launch_calls_eq [OF pos no_overflow_stride [OF no pos(4)]])
  with compute_launch_log(1) [OF assms] have "evs = launch_calls g c p" by simp
  with e show r: "in_region g c e" using launch_calls_in_region [OF fit] by simp
  show "in_stack g c e" using in_region_in_stack [OF fit r] .
qed

theorem scratch_in_stack_witness:
  "compute core_2x2x2 (table_plan 2 2 4) one_thread small_param [(0, 0, 1, 1)]
     = Some (JblasSuccess, [[Launch tiled_config tiled_calls]])
   \<and> tiles_fit core_2x2x2 tiled_config
   \<and> no_overflow core_2x2x2 tiled_config small_param
   \<and> StackSize tiled_config = mL2Cache one_thread
   \<and> list_all (in_region core_2x2x2 tiled_config) tiled_calls
   \<and> list_all (in_stack core_2x2x2 tiled_config) tiled_calls"
  (is "?run \<and> ?fit \<and> ?no \<and> ?size \<and> ?reg \<and> ?all")
proof -
  have fit: ?fit
    by (simp add: tiles_fit_def core_2x2x2_def tiled_config_def scratch_bytes_def
          tmpC_offset_def tmpA_offset_def)
  have no: ?no
    by (simp add: no_overflow_def INT_MAX_def core_2x2x2_def tiled_config_def small_param_def)
  have "?size \<and> (?fit \<and> ?no \<longrightarrow>
          (\<forall>e \<in> set tiled_calls. in_region core_2x2x2 tiled_config e
                                  \<and> in_stack core_2x2x2 tiled_config e))"
    by (rule scratch_in_stack [where logs = "[[Launch tiled_config tiled_calls]]"
          and st = JblasSuccess])
       (rule disjI1, rule compute_tiled, simp)
  with fit no compute_tiled show ?thesis by (simp add: list_all_iff)
qed

text \<open>
  The claim as it is written fails in four ways; in each of the four calls below
  \<open>compute\<close> makes one \<open>launch\<close> call, whose buffer has the size of the L2 cache, and
  the micro-kernel or the weight prologue is handed a tile that does not lie in the
  buffer.
  \<^item> The steps of the plan ask for more than the L2 cache holds: with steps of 1024 and
    four-byte elements the B tile alone takes 4 MB, and with 1 MB of L2 cache the C tile
    starts beyond the end of the buffer.
  \<^item> The three tiles fit exactly (\<open>16 + 32 + 4 = 52\<close> bytes), but \<open>NStep = 1\<close> is no
    multiple of \<open>NTILE = 2\<close>: the micro-kernel is handed a C tile of two columns, the
    padded width, which ends at byte 56.
  \<^item> The three tiles fit exactly (\<open>4 + 4 + 4 = 12\<close> bytes), but \<open>KStep = 1\<close> is no
    multiple of \<open>KTILE = 4\<close>: the weight prologue is handed a B tile of four rows, the
    padded depth, which ends at byte 16.
  \<^item> The three tiles fit exactly and the steps are multiples of the tile sizes, but the
    row stride of the C tile, \<open>2\<^sup>2\<^sup>9 * 4\<close> bytes, is not representable in \<open>int\<close>: the
    micro-kernel is handed the stride \<open>- 2\<^sup>3\<^sup>1\<close>, and the second row of its C tile lies
    before the start of the buffer.
\<close>

theorem scratch_in_stack_counterexample:
  "compute \<lparr>ISA = 1, MTILE = 2, NTILE = 2, KTILE = 2,
             sizeof_AType = 4, sizeof_BType = 4, sizeof_CType = 4\<rparr>
       (table_plan 1024 1024 1024) \<lparr>mNumThreads = 1, mL2Cache = 1048576\<rparr>
       \<lparr>M = 1, N = 1, K = 1\<rparr> [(0, 0, 1, 1)]
     = Some (JblasSuccess,
         [[Launch \<lparr>rowidx = 0, colidx = 0, rowsize = 1, colsize = 1,
                   MStep = 1024, NStep = 1024, KStep = 1024, StackSize = 1048576\<rparr>
             [GetWeight 0 2 2 0 0,
              GetActivation (Some 4194304) 1 1 0 0, Forward 0 4202496 1 2 2 4096 0,
              EpilogueForward 4202496 1024 0 0 1 1]]])
   \<and> \<not> in_stack \<lparr>ISA = 1, MTILE = 2, NTILE = 2, KTILE = 2,
             sizeof_AType = 4, sizeof_BType = 4, sizeof_CType = 4\<rparr>
         \<lparr>rowidx = 0, colidx = 0, rowsize = 1, colsize = 1,
          MStep = 1024, NStep = 1024, KStep = 1024, StackSize = 1048576\<rparr>
         (Forward 0 4202496 1 2 2 4096 0)
   \<and> compute \<lparr>ISA = 1, MTILE = 2, NTILE = 2, KTILE = 2,
             sizeof_AType = 4, sizeof_BType = 4, sizeof_CType = 4\<rparr>
       (table_plan 1 1 4) \<lparr>mNumThreads = 1, mL2Cache = 52\<rparr>
       \<lparr>M = 1, N = 1, K = 4\<rparr> [(0, 0, 1, 1)]
     = Some (JblasSuccess,
         [[Launch \<lparr>rowidx = 0, colidx = 0, rowsize = 1, colsize = 1,
                   MStep = 1, NStep = 1, KStep = 4, StackSize = 52\<rparr>
             [GetWeight 0 4 2 0 0,
              GetActivation (Some 16) 1 4 0 0, Forward 0 48 1 2 4 4 0,
              EpilogueForward 48 1 0 0 1 1]]])
   \<and> scratch_bytes \<lparr>ISA = 1, MTILE = 2, NTILE = 2, KTILE = 2,
             sizeof_AType = 4, sizeof_BType = 4, sizeof_CType = 4\<rparr>
         \<lparr>rowidx = 0, colidx = 0, rowsize = 1, colsize = 1,
          MStep = 1, NStep = 1, KStep = 4, StackSize = 52\<rparr> = 52
   \<and> \<not> in_stack \<lparr>ISA = 1, MTILE = 2, NTILE = 2, KTILE = 2,
             sizeof_AType = 4, sizeof_BType = 4, sizeof_CType = 4\<rparr>
         \<lparr>rowidx = 0, colidx = 0, rowsize = 1, colsize = 1,
          MStep = 1, NStep = 1, KStep = 4, StackSize = 52\<rparr>
         (Forward 0 48 1 2 4 4 0)
   \<and> compute \<lparr>ISA = 1, MTILE = 1, NTILE = 1, KTILE = 4,
             sizeof_AType = 4, sizeof_BType = 4, sizeof_CType = 4\<rparr>
       (table_plan 1 1 1) \<lparr>mNumThreads = 1, mL2Cache = 12\<rparr>
       \<lparr>M = 1, N = 1, K = 1\<rparr> [(0, 0, 1, 1)]
     = Some (JblasSuccess,
         [[Launch \<lparr>rowidx = 0, colidx = 0, rowsize = 1, colsize = 1,
                   MStep = 1, NStep = 1, KStep = 1, StackSize = 12\<rparr>
             [GetWeight 0 4 1 0 0,
              GetActivation (Some 4) 1 1 0 0, Forward 0 8 1 1 4 4 0,
              EpilogueForward 8 1 0 0 1 1]]])
   \<and> scratch_bytes \<lparr>ISA = 1, MTILE = 1, NTILE = 1, KTILE = 4,
             sizeof_AType = 4, sizeof_BType = 4, sizeof_CType = 4\<rparr>
         \<lparr>rowidx = 0, colidx = 0, rowsize = 1, colsize = 1,
          MStep = 1, NStep = 1, KStep = 1, StackSize = 12\<rparr> = 12
   \<and> \<not> in_stack \<lparr>ISA = 1, MTILE = 1, NTILE = 1, KTILE = 4,
             sizeof_AType = 4, sizeof_BType = 4, sizeof_CType = 4\<rparr>
         \<lparr>rowidx = 0, colidx = 0, rowsize = 1, colsize = 1,
          MStep = 1, NStep = 1, KStep = 1, StackSize = 12\<rparr>
         (GetWeight 0 4 1 0 0)
   \<and> compute \<lparr>ISA = 1, MTILE = 2, NTILE = 1, KTILE = 1,
             sizeof_AType = 4, sizeof_BType = 1, sizeof_CType = 4\<rparr>
       (table_plan 2 536870912 1) \<lparr>mNumThreads = 1, mL2Cache = 4831838216\<rparr>
       \<lparr>M = 2, N = 1, K = 1\<rparr> [(0, 0, 2, 1)]
     = Some (JblasSuccess,
         [[Launch \<lparr>rowidx = 0, colidx = 0, rowsize = 2, colsize = 1,
                   MStep = 2, NStep = 536870912, KStep = 1, StackSize = 4831838216\<rparr>
             [GetWeight 0 1 1 0 0,
              GetActivation (Some 536870912) 2 1 0 0,
              Forward 0 536870920 2 1 1 (- 2147483648) 0,
              EpilogueForward 536870920 536870912 0 0 2 1]]])
   \<and> scratch_bytes \<lparr>ISA = 1, MTILE = 2, NTILE = 1, KTILE = 1,
             sizeof_AType = 4, sizeof_BType = 1, sizeof_CType = 4\<rparr>
         \<lparr>rowidx = 0, colidx = 0, rowsize = 2, colsize = 1,
          MStep = 2, NStep = 536870912, KStep = 1, StackSize = 4831838216\<rparr> = 4831838216
   \<and> \<not> in_stack \<lparr>ISA = 1, MTILE = 2, NTILE = 1, KTILE = 1,
             sizeof_AType = 4, sizeof_BType = 1, sizeof_CType = 4\<rparr>
         \<lparr>rowidx = 0, colidx = 0, rowsize = 2, colsize = 1,
          MStep = 2, NStep = 536870912, KStep = 1, StackSize = 4831838216\<rparr>
         (Forward 0 536870920 2 1 1 (- 2147483648) 0)"
  by (simp add: compute_one_thread [OF launch_large_steps]
        compute_one_thread [OF launch_untiled_n] compute_one_thread [OF launch_untiled_k]
        compute_one_thread [OF launch_wide_stride]
        in_stack_def scratch_bytes_def tmpC_offset_def tmpA_offset_def del: One_nat_def)

section \<open>Properties of the evaluator\<close>

subsection \<open>Copies into a view\<close>

lemma write_at_length: "length (write_at d i x) = length d"
  by (simp add: write_at_def)

lemma write_at_other: "i \<noteq> int j \<Longrightarrow> write_at d i x ! j = d ! j"
  by (auto simp: write_at_def nth_list_update)

lemma write_at_hit: "0 \<le> i \<Longrightarrow> i < int (length d) \<Longrightarrow> write_at d i x ! nat i = x"
  by (simp add: write_at_def nat_less_iff)

lemma fold_write_length:
  "length (fold (\<lambda>c d. write_at d (f c) (g c)) cs d) = length d"
  by (induction cs arbitrary: d) (simp_all add: write_at_length)

lemma fold_write_other:
  "(\<And>c. c \<in> set cs \<Longrightarrow> f c \<noteq> int j) \<Longrightarrow>
     fold (\<lambda>c d. write_at d (f c) (g c)) cs d ! j = d ! j"
  by (induction cs arbitrary: d) (simp_all add: write_at_other)

lemma fold_write_hit:
  assumes "distinct cs" and "inj_on f (set cs)" and "c \<in> set cs"
    and "0 \<le> f c" and "f c < int (length d)"
  shows "fold (\<lambda>c d. write_at d (f c) (g c)) cs d ! nat (f c) = g c"
  using assms
proof (induction cs arbitrary: d)
  case Nil
  then show ?case by simp
next
  case (Cons a cs)
  show ?case
  proof (cases "c = a")
    case True
    have "f c' \<noteq> int (nat (f c))" if "c' \<in> set cs" for c'
      using that Cons.prems(1,2,4) True by (auto simp: inj_on_def)
    then have "fold (\<lambda>c d. write_at d (f c) (g c)) cs (write_at d (f a) (g a)) ! nat (f c)
                 = write_at d (f a) (g a) ! nat (f c)"
      by (rule fold_write_other)
    then show ?thesis using True Cons.prems(4,5) by (simp add: write_at_hit)
  next
    case False
    then have "c \<in> set cs" using Cons.prems(3) by simp
    moreover have "distinct cs" "inj_on f (set cs)" using Cons.prems(1,2) by (auto simp: inj_on_def)
    moreover have "f c < int (length (write_at d (f a) (g a)))"
      using Cons.prems(5) by (simp add: write_at_length)
    ultimately have "fold (\<lambda>c d. write_at d (f c) (g c)) cs (write_at d (f a) (g a)) ! nat (f c)
                       = g c"
      using Cons.prems(4) by (intro Cons.IH)
    then show ?thesis by simp
  qed
qed

lemma distinct_view_cells: "distinct (view_cells vw)"
  by (simp add: view_cells_def distinct_product)

lemma view_cells_iff:
  "(i1, i0) \<in> set (view_cells vw) \<longleftrightarrow> int i1 < ne1 vw \<and> int i0 < ne0 vw"
  by (auto simp: view_cells_def)

lemma ne_cpy_size:
  "element_size (ne_cpy src vw t) = element_size t"
  "length (data (ne_cpy src vw t)) = length (data t)"
  by (simp_all add: ne_cpy_def fold_write_length)

lemma ne_cpy_other:
  assumes "\<And>c. c \<in> set (view_cells vw) \<Longrightarrow> view_index t vw c \<noteq> int j"
  shows "data (ne_cpy src vw t) ! j = data t ! j"
  using assms by (simp add: ne_cpy_def fold_write_other)

lemma ne_cpy_hit:
  assumes "c \<in> set (view_cells vw)" and "inj_on (view_index t vw) (set (view_cells vw))"
    and "0 \<le> view_index t vw c" and "view_index t vw c < int (length (data t))"
  shows "data (ne_cpy src vw t) ! nat (view_index t vw c) = src (int (snd c)) (int (fst c))"
proof -
  have "fold (\<lambda>c d. write_at d (view_index t vw c) (src (int (snd c)) (int (fst c))))
          (view_cells vw) (data t) ! nat (view_index t vw c) = src (int (snd c)) (int (fst c))"
    using distinct_view_cells assms(2,1,3,4) by (rule fold_write_hit)
  then show ?thesis by (simp add: ne_cpy_def)
qed

lemma product_Nil_right: "List.product xs [] = []"
  by (induction xs) simp_all

subsection \<open>Places in the cache\<close>

lemma index_split:
  fixes a a' b b' n :: int
  assumes "a * n + b = a' * n + b'" and "0 \<le> b" "b < n" and "0 \<le> b'" "b' < n"
  shows "a = a'" and "b = b'"
proof -
  have "(a * n + b) div n = a" "(a' * n + b') div n = a'"
    using assms(2-5) by (simp_all add: div_pos_pos_trivial)
  with assms(1) show "a = a'" by simp
  with assms(1) show "b = b'" by simp
qed

lemma k_cell_entry:
  fixes ne nc il il0 p q e0 i0 nt :: int
  assumes eq: "ne * (il * nc + p) + i0 = ne * (il0 * nc + q) + e0"
    and i0: "0 \<le> i0" "i0 < nt * ne" and e0: "0 \<le> e0" "e0 < ne"
    and p: "0 \<le> p" "p + nt \<le> nc" and q: "0 \<le> q" "q < nc"
  shows "il = il0" and "p \<le> q" and "q < p + nt" and "i0 = (q - p) * ne + e0"
proof -
  have ne: "0 < ne" using e0 by simp
  let ?t = "i0 div ne" and ?e = "i0 mod ne"
  have e: "0 \<le> ?e" "?e < ne" using ne by simp_all
  have t: "0 \<le> ?t" "?t < nt"
  proof -
    show "0 \<le> ?t" using i0(1) ne by (simp add: pos_imp_zdiv_nonneg_iff)
    have "\<not> nt \<le> i0 div ne" using int_le_div_iff [OF ne, of nt i0] i0(2) by simp
    then show "?t < nt" by simp
  qed
  have "(il * nc + p + ?t) * ne + ?e = ne * (il * nc + p) + i0"
    by (simp add: algebra_simps)
  also have "\<dots> = (il0 * nc + q) * ne + e0" using eq by (simp add: algebra_simps)
  finally have s1: "il * nc + p + ?t = il0 * nc + q" "?e = e0"
    using index_split [of "il * nc + p + ?t" ne ?e "il0 * nc + q" e0] e e0 by simp_all
  have "il * nc + (p + ?t) = il0 * nc + q" using s1(1) by simp
  then have s2: "il = il0" "p + ?t = q"
    using index_split [of il nc "p + ?t" il0 q] p q t by simp_all
  show "il = il0" by (rule s2(1))
  show "p \<le> q" "q < p + nt" using s2(2) t by simp_all
  have "i0 = ?t * ne + ?e" by simp
  then show "i0 = (q - p) * ne + e0" using s1(2) s2(2) by (metis add_diff_cancel_left')
qed

lemma v_cell_entry:
  fixes ne nc il il0 p q e0 i0 i1 nt :: int
  assumes eq: "(il * ne + i1) * nc + (p + i0) = (il0 * ne + e0) * nc + q"
    and i0: "0 \<le> i0" "i0 < nt" and i1: "0 \<le> i1" "i1 < ne" and e0: "0 \<le> e0" "e0 < ne"
    and p: "0 \<le> p" "p + nt \<le> nc" and q: "0 \<le> q" "q < nc"
  shows "il = il0" and "i1 = e0" and "q = p + i0"
proof -
  have s1: "il * ne + i1 = il0 * ne + e0" "p + i0 = q"
    using index_split [OF eq] i0 p q by simp_all
  show "q = p + i0" using s1(2) by simp
  show "il = il0" "i1 = e0" using index_split [OF s1(1)] i1 e0 by simp_all
qed

lemma k_view_index:
  assumes "0 < element_size t"
  shows "view_index t (ne_view_1d len ((ne_element_size t * ne) * (il * nc + p))) (i1, i0)
           = ne * (il * nc + p) + int i0"
proof -
  have "view_index t (ne_view_1d len ((ne_element_size t * ne) * (il * nc + p))) (i1, i0)
          = (element_size t * (ne * (il * nc + p))) div element_size t + int i0"
    by (simp add: view_index_def ne_view_1d_def ne_element_size_def algebra_simps)
  also have "\<dots> = ne * (il * nc + p) + int i0"
    using assms by simp
  finally show ?thesis .
qed

lemma v_view_index:
  assumes "0 < element_size t"
  shows "view_index t (ne_view_2d nt ne (nc * ne_element_size t)
                        ((il * nc) * ne_element_size t * ne + p * ne_element_size t)) (i1, i0)
           = (il * ne + int i1) * nc + (p + int i0)"
proof -
  have "view_index t (ne_view_2d nt ne (nc * ne_element_size t)
                        ((il * nc) * ne_element_size t * ne + p * ne_element_size t)) (i1, i0)
          = (element_size t * ((il * ne + int i1) * nc + p)) div element_size t + int i0"
    by (simp add: view_index_def ne_view_2d_def ne_element_size_def algebra_simps)
  also have "\<dots> = (il * ne + int i1) * nc + (p + int i0)"
    using assms by simp
  finally show ?thesis .
qed

lemma k_index_nonneg:
  "0 < n_embd hp \<Longrightarrow> 0 < n_ctx hp \<Longrightarrow> 0 \<le> il \<Longrightarrow> 0 \<le> q \<Longrightarrow> 0 \<le> e \<Longrightarrow> 0 \<le> k_index hp il q e"
  by (simp add: k_index_def)

lemma v_index_nonneg:
  "0 < n_embd hp \<Longrightarrow> 0 < n_ctx hp \<Longrightarrow> 0 \<le> il \<Longrightarrow> 0 \<le> q \<Longrightarrow> 0 \<le> e \<Longrightarrow> 0 \<le> v_index hp il q e"
  by (simp add: v_index_def)

lemma k_index_less:
  fixes ne nc nl il q e :: int
  assumes "0 \<le> e" "e < ne" "0 \<le> q" "q < nc" "0 \<le> il" "il < nl"
  shows "ne * (il * nc + q) + e < ne * nl * nc"
proof -
  have "il * nc \<le> (nl - 1) * nc" using assms by (intro mult_right_mono) simp_all
  then have "il * nc + q + 1 \<le> nl * nc" using assms by (simp add: algebra_simps)
  then have "ne * (il * nc + q + 1) \<le> ne * (nl * nc)"
    using assms by (intro mult_left_mono) simp_all
  then show ?thesis using assms by (simp add: algebra_simps)
qed

lemma v_index_less:
  fixes ne nc nl il q e :: int
  assumes "0 \<le> e" "e < ne" "0 \<le> q" "q < nc" "0 \<le> il" "il < nl"
  shows "(il * ne + e) * nc + q < ne * nl * nc"
proof -
  have "il * ne \<le> (nl - 1) * ne" using assms by (intro mult_right_mono) simp_all
  then have "il * ne + e + 1 \<le> nl * ne" using assms by (simp add: algebra_simps)
  then have "(il * ne + e + 1) * nc \<le> (nl * ne) * nc"
    using assms by (intro mult_right_mono) simp_all
  then show ?thesis using assms by (simp add: algebra_simps)
qed

subsection \<open>One layer\<close>

lemma store_kv_wf:
  assumes "wf_cache hp kv"
  shows "wf_cache hp (store_kv run hp nt p il kv)"
    and "kv_n (store_kv run hp nt p il kv) = kv_n kv"
    and "kv_ctx (store_kv run hp nt p il kv) = kv_ctx kv"
  using assms by (simp_all add: store_kv_def Let_def wf_cache_def ne_cpy_size)

lemma store_kv_other:
  assumes wf: "wf_cache hp kv"
    and p: "0 \<le> p" "p + nt \<le> n_ctx hp"
    and tgt: "0 \<le> il0" "0 \<le> q" "q < n_ctx hp" "0 \<le> e0" "e0 < n_embd hp"
    and out: "il0 \<noteq> il \<or> q < p \<or> p + nt \<le> q"
  shows "k_entry hp (store_kv run hp nt p il kv) il0 q e0 = k_entry hp kv il0 q e0"
    and "v_entry hp (store_kv run hp nt p il kv) il0 q e0 = v_entry hp kv il0 q e0"
proof -
  let ?kvw = "ne_view_1d (nt * n_embd hp)
        ((ne_element_size (kv_k kv) * n_embd hp) * (il * n_ctx hp + p))"
  let ?vvw = "ne_view_2d nt (n_embd hp) (n_ctx hp * ne_element_size (kv_v kv))
        ((il * n_ctx hp) * ne_element_size (kv_v kv) * n_embd hp
         + p * ne_element_size (kv_v kv))"
  have pos: "0 < n_embd hp" "0 < n_ctx hp" "0 < element_size (kv_k kv)" "0 < element_size (kv_v kv)"
    using wf by (simp_all add: wf_cache_def)
  have "data (ne_cpy (Kcur run il) ?kvw (kv_k kv)) ! nat (k_index hp il0 q e0)
          = data (kv_k kv) ! nat (k_index hp il0 q e0)"
  proof (rule ne_cpy_other)
    fix c assume c: "c \<in> set (view_cells ?kvw)"
    obtain i1 i0 where ci: "c = (i1, i0)" by (cases c)
    with c have i0: "int i0 < nt * n_embd hp" by (simp add: view_cells_iff ne_view_1d_def)
    show "view_index (kv_k kv) ?kvw c \<noteq> int (nat (k_index hp il0 q e0))"
    proof
      assume "view_index (kv_k kv) ?kvw c = int (nat (k_index hp il0 q e0))"
      then have "n_embd hp * (il * n_ctx hp + p) + int i0
                   = n_embd hp * (il0 * n_ctx hp + q) + e0"
        using k_index_nonneg [OF pos(1,2) tgt(1,2,4)]
        by (simp add: ci k_view_index [OF pos(3)] k_index_def)
      from k_cell_entry(1-3) [OF this _ i0 tgt(4,5) p tgt(2,3)] out
      show False by simp
    qed
  qed
  then show "k_entry hp (store_kv run hp nt p il kv) il0 q e0 = k_entry hp kv il0 q e0"
    by (simp add: k_entry_def store_kv_def Let_def)
  have "data (ne_cpy (Vcur run il) ?vvw (kv_v kv)) ! nat (v_index hp il0 q e0)
          = data (kv_v kv) ! nat (v_index hp il0 q e0)"
  proof (rule ne_cpy_other)
    fix c assume c: "c \<in> set (view_cells ?vvw)"
    obtain i1 i0 where ci: "c = (i1, i0)" by (cases c)
    with c have i: "int i1 < n_embd hp" "int i0 < nt" by (simp_all add: view_cells_iff ne_view_2d_def)
    show "view_index (kv_v kv) ?vvw c \<noteq> int (nat (v_index hp il0 q e0))"
    proof
      assume "view_index (kv_v kv) ?vvw c = int (nat (v_index hp il0 q e0))"
      then have "(il * n_embd hp + int i1) * n_ctx hp + (p + int i0)
                   = (il0 * n_embd hp + e0) * n_ctx hp + q"
        using v_index_nonneg [OF pos(1,2) tgt(1,2,4)]
        by (simp add: ci v_view_index [OF pos(4)] v_index_def)
      from v_cell_entry(1,3) [OF this _ i(2) _ i(1) tgt(4,5) p tgt(2,3)] out i(2)
      show False by simp
    qed
  qed
  then show "v_entry hp (store_kv run hp nt p il kv) il0 q e0 = v_entry hp kv il0 q e0"
    by (simp add: v_entry_def store_kv_def Let_def)
qed

lemma store_kv_hit:
  assumes wf: "wf_cache hp kv"
    and p: "0 \<le> p" "p + nt \<le> n_ctx hp" and il: "0 \<le> il" "il < n_layer hp"
    and t: "0 \<le> t" "t < nt" and e0: "0 \<le> e0" "e0 < n_embd hp"
  shows "k_entry hp (store_kv run hp nt p il kv) il (p + t) e0
           = Kcur run il (t * n_embd hp + e0) 0"
    and "v_entry hp (store_kv run hp nt p il kv) il (p + t) e0 = Vcur run il t e0"
proof -
  let ?kvw = "ne_view_1d (nt * n_embd hp)
        ((ne_element_size (kv_k kv) * n_embd hp) * (il * n_ctx hp + p))"
  let ?vvw = "ne_view_2d nt (n_embd hp) (n_ctx hp * ne_element_size (kv_v kv))
        ((il * n_ctx hp) * ne_element_size (kv_v kv) * n_embd hp
         + p * ne_element_size (kv_v kv))"
  have pos: "0 < n_embd hp" "0 < n_ctx hp" "0 < element_size (kv_k kv)" "0 < element_size (kv_v kv)"
    and len: "int (length (data (kv_k kv))) = n_embd hp * n_layer hp * n_ctx hp"
             "int (length (data (kv_v kv))) = n_embd hp * n_layer hp * n_ctx hp"
    using wf by (simp_all add: wf_cache_def)
  have q: "0 \<le> p + t" "p + t < n_ctx hp" using p t by simp_all
  \<comment> \<open>the key tensor\<close>
  let ?i0 = "t * n_embd hp + e0"
  have i0: "0 \<le> ?i0" "?i0 < nt * n_embd hp"
  proof -
    show "0 \<le> ?i0" using t e0 pos by simp
    have "?i0 < (t + 1) * n_embd hp" using e0 by (simp add: algebra_simps)
    also have "\<dots> \<le> nt * n_embd hp" using t pos by (intro mult_right_mono) simp_all
    finally show "?i0 < nt * n_embd hp" .
  qed
  have kc: "(0, nat ?i0) \<in> set (view_cells ?kvw)"
    using i0 by (simp add: view_cells_iff ne_view_1d_def)
  have kinj: "inj_on (view_index (kv_k kv) ?kvw) (set (view_cells ?kvw))"
  proof (rule inj_onI)
    fix x y assume x: "x \<in> set (view_cells ?kvw)" and y: "y \<in> set (view_cells ?kvw)"
      and eq: "view_index (kv_k kv) ?kvw x = view_index (kv_k kv) ?kvw y"
    obtain x1 x0 y1 y0 where xy: "x = (x1, x0)" "y = (y1, y0)" by (cases x, cases y)
    from x y xy have r: "x1 = 0" "y1 = 0"
      by (simp_all add: view_cells_iff ne_view_1d_def)
    from eq have "x0 = y0" by (simp add: xy k_view_index [OF pos(3)])
    with r show "x = y" by (simp add: xy)
  qed
  have kidx: "view_index (kv_k kv) ?kvw (0, nat ?i0) = k_index hp il (p + t) e0"
  proof -
    have "view_index (kv_k kv) ?kvw (0, nat ?i0) = n_embd hp * (il * n_ctx hp + p) + ?i0"
      using i0(1) by (simp add: k_view_index [OF pos(3)])
    also have "\<dots> = k_index hp il (p + t) e0" by (simp add: k_index_def algebra_simps)
    finally show ?thesis .
  qed
  have krange: "0 \<le> k_index hp il (p + t) e0"
    "k_index hp il (p + t) e0 < int (length (data (kv_k kv)))"
    using k_index_nonneg [OF pos(1,2) il(1) q(1) e0(1)]
      k_index_less [OF e0 q il] by (simp_all add: len k_index_def)
  have "data (ne_cpy (Kcur run il) ?kvw (kv_k kv)) ! nat (view_index (kv_k kv) ?kvw (0, nat ?i0))
          = Kcur run il (int (snd (0::nat, nat ?i0))) (int (fst (0::nat, nat ?i0)))"
    using kc kinj krange unfolding kidx [symmetric] by (rule ne_cpy_hit)
  then show "k_entry hp (store_kv run hp nt p il kv) il (p + t) e0
               = Kcur run il (t * n_embd hp + e0) 0"
    using i0 by (simp add: kidx k_entry_def store_kv_def Let_def)
  \<comment> \<open>the value tensor\<close>
  have vc: "(nat e0, nat t) \<in> set (view_cells ?vvw)"
    using t e0 by (simp add: view_cells_iff ne_view_2d_def)
  have vinj: "inj_on (view_index (kv_v kv) ?vvw) (set (view_cells ?vvw))"
  proof (rule inj_onI)
    fix x y assume x: "x \<in> set (view_cells ?vvw)" and y: "y \<in> set (view_cells ?vvw)"
      and eq: "view_index (kv_v kv) ?vvw x = view_index (kv_v kv) ?vvw y"
    obtain x1 x0 y1 y0 where xy: "x = (x1, x0)" "y = (y1, y0)" by (cases x, cases y)
    from x y xy have r: "int x1 < n_embd hp" "int x0 < nt" "int y1 < n_embd hp" "int y0 < nt"
      by (simp_all add: view_cells_iff ne_view_2d_def)
    from eq have "(il * n_embd hp + int x1) * n_ctx hp + (p + int x0)
                    = (il * n_embd hp + int y1) * n_ctx hp + (p + int y0)"
      by (simp add: xy v_view_index [OF pos(4)])
    from index_split [OF this] r p show "x = y" by (simp add: xy)
  qed
  have vidx: "view_index (kv_v kv) ?vvw (nat e0, nat t) = v_index hp il (p + t) e0"
    using t e0 by (simp add: v_view_index [OF pos(4)] v_index_def)
  have vrange: "0 \<le> v_index hp il (p + t) e0"
    "v_index hp il (p + t) e0 < int (length (data (kv_v kv)))"
    using v_index_nonneg [OF pos(1,2) il(1) q(1) e0(1)]
      v_index_less [OF e0 q il] by (simp_all add: len v_index_def)
  have "data (ne_cpy (Vcur run il) ?vvw (kv_v kv)) ! nat (view_index (kv_v kv) ?vvw (nat e0, nat t))
          = Vcur run il (int (snd (nat e0, nat t))) (int (fst (nat e0, nat t)))"
    using vc vinj vrange unfolding vidx [symmetric] by (rule ne_cpy_hit)
  then show "v_entry hp (store_kv run hp nt p il kv) il (p + t) e0 = Vcur run il t e0"
    using t e0 by (simp add: vidx v_entry_def store_kv_def Let_def)
qed

subsection \<open>All layers\<close>

declare layers.simps [simp del]

lemma layers_wf:
  "wf_cache hp kv \<Longrightarrow>
     wf_cache hp (layers run hp nt p il kv) \<and> kv_n (layers run hp nt p il kv) = kv_n kv
     \<and> kv_ctx (layers run hp nt p il kv) = kv_ctx kv"
proof (induction run hp nt p il kv rule: layers.induct)
  case (1 run hp nt p il kv)
  show ?case
  proof (cases "il < n_layer hp")
    case False
    with "1.prems" show ?thesis by (simp add: layers.simps [of run hp nt p il kv])
  next
    case True
    from "1.IH" [OF True store_kv_wf(1) [OF "1.prems"]] store_kv_wf(2,3) [OF "1.prems"] True
    show ?thesis by (simp add: layers.simps [of run hp nt p il kv])
  qed
qed

lemma layers_other:
  "wf_cache hp kv \<Longrightarrow> 0 \<le> p \<Longrightarrow> p + nt \<le> n_ctx hp \<Longrightarrow>
   0 \<le> il0 \<Longrightarrow> 0 \<le> q \<Longrightarrow> q < n_ctx hp \<Longrightarrow> 0 \<le> e0 \<Longrightarrow> e0 < n_embd hp \<Longrightarrow>
   il0 < il \<or> q < p \<or> p + nt \<le> q \<Longrightarrow>
     k_entry hp (layers run hp nt p il kv) il0 q e0 = k_entry hp kv il0 q e0
   \<and> v_entry hp (layers run hp nt p il kv) il0 q e0 = v_entry hp kv il0 q e0"
proof (induction run hp nt p il kv rule: layers.induct)
  case (1 run hp nt p il kv)
  show ?case
  proof (cases "il < n_layer hp")
    case False
    then show ?thesis by (simp add: layers.simps [of run hp nt p il kv])
  next
    case True
    have out: "il0 \<noteq> il \<or> q < p \<or> p + nt \<le> q" using "1.prems"(9) by auto
    have out': "il0 < il + 1 \<or> q < p \<or> p + nt \<le> q" using "1.prems"(9) by auto
    from "1.IH" [OF True store_kv_wf(1) [OF "1.prems"(1)] "1.prems"(2-8) out']
      store_kv_other [OF "1.prems"(1-8) out] True
    show ?thesis by (simp add: layers.simps [of run hp nt p il kv])
  qed
qed

lemma layers_hit:
  "wf_cache hp kv \<Longrightarrow>
   0 \<le> p \<Longrightarrow> p + nt \<le> n_ctx hp \<Longrightarrow> 0 \<le> il \<Longrightarrow> il \<le> il0 \<Longrightarrow> il0 < n_layer hp \<Longrightarrow>
   0 \<le> t \<Longrightarrow> t < nt \<Longrightarrow> 0 \<le> e0 \<Longrightarrow> e0 < n_embd hp \<Longrightarrow>
     k_entry hp (layers run hp nt p il kv) il0 (p + t) e0 = Kcur run il0 (t * n_embd hp + e0) 0
   \<and> v_entry hp (layers run hp nt p il kv) il0 (p + t) e0 = Vcur run il0 t e0"
proof (induction run hp nt p il kv rule: layers.induct)
  case (1 run hp nt p il kv)
  from "1.prems"(5,6) have lt: "il < n_layer hp" by simp
  let ?kv1 = "store_kv run hp nt p il kv"
  have l: "layers run hp nt p il kv = layers run hp nt p (il + 1) ?kv1"
    using lt by (simp add: layers.simps [of run hp nt p il kv])
  note wf1 = store_kv_wf(1) [OF "1.prems"(1), of run nt p il]
  show ?case
  proof (cases "il0 = il")
    case True
    have q: "0 \<le> p + t" "p + t < n_ctx hp" using "1.prems"(2,3,7,8) by simp_all
    have "k_entry hp (layers run hp nt p (il + 1) ?kv1) il0 (p + t) e0
            = k_entry hp ?kv1 il0 (p + t) e0
        \<and> v_entry hp (layers run hp nt p (il + 1) ?kv1) il0 (p + t) e0
            = v_entry hp ?kv1 il0 (p + t) e0"
      using True "1.prems"(4)
      by (intro layers_other [OF wf1 "1.prems"(2,3) _ q "1.prems"(9,10)]) simp_all
    with store_kv_hit [OF "1.prems"(1-4) lt "1.prems"(7-10), of run] True l
    show ?thesis by simp
  next
    case False
    with "1.prems"(5) have le: "il + 1 \<le> il0" by simp
    have "0 \<le> il + 1" using "1.prems"(4) by simp
    from "1.IH" [OF lt wf1 "1.prems"(2,3) this le "1.prems"(6-10)] l
    show ?thesis by simp
  qed
qed

lemma store_kv_negative:
  assumes "nt < 0" and "0 < n_embd hp"
  shows "store_kv run hp nt p il kv = kv"
proof -
  have "nt * n_embd hp \<le> 0" using assms by (simp add: mult_le_0_iff)
  then show ?thesis
    using assms(1)
    by (simp add: store_kv_def Let_def ne_cpy_def view_cells_def ne_view_1d_def ne_view_2d_def
          product_Nil_right)
qed

lemma layers_negative:
  "nt < 0 \<Longrightarrow> 0 < n_embd hp \<Longrightarrow> layers run hp nt p il kv = kv"
proof (induction run hp nt p il kv rule: layers.induct)
  case (1 run hp nt p il kv)
  show ?case
  proof (cases "il < n_layer hp")
    case True
    with "1.IH" [OF True "1.prems"] store_kv_negative [OF "1.prems"] show ?thesis
      by (simp add: layers.simps [of run hp nt p il kv])
  next
    case False
    then show ?thesis by (simp add: layers.simps [of run hp nt p il kv])
  qed
qed

subsection \<open>The outputs\<close>

lemma resize_Inr: "resize n xs = Inr ys \<Longrightarrow> 0 \<le> n \<and> int (length ys) = n"
  by (auto simp: resize_def split: if_splits)

lemma memcpy_Inr:
  assumes "memcpy dst src off n = Inr out" and "int (length dst) = n"
  shows "out = take (nat n) (drop (nat off) src)" and "int (length out) = n"
    and "0 \<le> off" and "off + n \<le> int (length src)"
  using assms by (auto simp: memcpy_def split: if_splits)

lemma extract_logits_Inr:
  assumes "extract_logits run nt lctx = Inr lctx'"
  shows "lctx' = lctx\<lparr>logits := logits lctx'\<rparr>"
    and "logits_all lctx \<Longrightarrow>
           int (length (logits lctx')) = n_vocab (hparams lctx) * nt
         \<and> logits lctx' = take (nat (n_vocab (hparams lctx) * nt)) (data (inpL run))"
    and "\<not> logits_all lctx \<Longrightarrow>
           int (length (logits lctx')) = n_vocab (hparams lctx)
         \<and> logits lctx' = take (nat (n_vocab (hparams lctx)))
                             (drop (nat (n_vocab (hparams lctx) * (nt - 1))) (data (inpL run)))"
proof -
  show "lctx' = lctx\<lparr>logits := logits lctx'\<rparr>"
    using assms unfolding extract_logits_def Let_def
    by (auto split: if_splits sum.splits)
  show "int (length (logits lctx')) = n_vocab (hparams lctx) * nt
         \<and> logits lctx' = take (nat (n_vocab (hparams lctx) * nt)) (data (inpL run))"
    if "logits_all lctx"
  proof -
    from assms that obtain out out' where
      r: "resize (n_vocab (hparams lctx) * nt) (logits lctx) = Inr out" and
      m: "memcpy out (data (inpL run)) 0 (n_vocab (hparams lctx) * nt) = Inr out'" and
      l: "lctx' = lctx\<lparr>logits := out'\<rparr>"
      unfolding extract_logits_def Let_def ne_get_data_def
      by (auto split: sum.splits)
    from memcpy_Inr(1,2) [OF m] resize_Inr [OF r] show ?thesis by (simp add: l)
  qed
  show "int (length (logits lctx')) = n_vocab (hparams lctx)
         \<and> logits lctx' = take (nat (n_vocab (hparams lctx)))
                             (drop (nat (n_vocab (hparams lctx) * (nt - 1))) (data (inpL run)))"
    if "\<not> logits_all lctx"
  proof -
    from assms that obtain out out' where
      r: "resize (n_vocab (hparams lctx)) (logits lctx) = Inr out" and
      m: "memcpy out (data (inpL run)) (n_vocab (hparams lctx) * (nt - 1))
            (n_vocab (hparams lctx)) = Inr out'" and
      l: "lctx' = lctx\<lparr>logits := out'\<rparr>"
      unfolding extract_logits_def Let_def ne_get_data_def
      by (auto split: sum.splits)
    from memcpy_Inr(1,2) [OF m] resize_Inr [OF r] show ?thesis by (simp add: l)
  qed
qed

lemma extract_embeddings_None:
  "extract_embeddings None nt lctx = Inr lctx' \<longleftrightarrow> embedding lctx = [] \<and> lctx' = lctx"
  unfolding extract_embeddings_def Let_def ne_get_data_def
  by (auto split: sum.splits)

lemma extract_embeddings_null:
  assumes "embedding lctx \<noteq> []" and "0 \<le> n_embd (hparams lctx)"
  shows "extract_embeddings None nt lctx = Inl NullTensor"
  using assms unfolding extract_embeddings_def Let_def ne_get_data_def resize_def
  by simp

lemma update_mem_per_token_Inr:
  "update_mem_per_token run nt lctx = Inr lctx' \<Longrightarrow>
     lctx' = lctx\<lparr>mem_per_token := mem_per_token lctx'\<rparr>"
  unfolding update_mem_per_token_def by (auto split: if_splits)

lemma measure_performance_fields:
  "kv_self (measure_performance run nt lctx) = kv_self lctx"
  "logits (measure_performance run nt lctx) = logits lctx"
  "embedding (measure_performance run nt lctx) = embedding lctx"
  "hparams (measure_performance run nt lctx) = hparams lctx"
  unfolding measure_performance_def Let_def by simp_all

lemma eval_internal_Inr:
  assumes "gptneox_model_eval_internal run lctx nt p = Inr (r, lctx')"
  obtains lctx2 where "r = True" and "kv_ctx (kv_self lctx)"
    and "extract_logits run nt
           (lctx\<lparr>kv_self := (layers run (hparams lctx) nt p 0 (kv_self lctx))\<lparr>kv_n := p + nt\<rparr>\<rparr>)
         = Inr lctx2"
    and "embedding lctx = []"
    and "kv_self lctx' = (layers run (hparams lctx) nt p 0 (kv_self lctx))\<lparr>kv_n := p + nt\<rparr>"
    and "logits lctx' = logits lctx2"
    and "embedding lctx' = embedding lctx"
proof -
  let ?kv = "layers run (hparams lctx) nt p 0 (kv_self lctx)"
  from assms obtain lctx2 lctx3 lctx4 where
    c: "kv_ctx (kv_self lctx)" and
    x: "extract_logits run nt (lctx\<lparr>kv_self := ?kv\<lparr>kv_n := p + nt\<rparr>\<rparr>) = Inr lctx2" and
    e: "extract_embeddings None nt lctx2 = Inr lctx3" and
    u: "update_mem_per_token run nt lctx3 = Inr lctx4" and
    r: "r = True" and m: "lctx' = measure_performance run nt lctx4"
    unfolding gptneox_model_eval_internal_def Let_def
    by (auto split: if_splits sum.splits)
  from e have e': "embedding lctx2 = []" "lctx3 = lctx2"
    by (simp_all add: extract_embeddings_None)
  note x' = extract_logits_Inr(1) [OF x]
  note u' = update_mem_per_token_Inr [OF u]
  have f2: "kv_self lctx2 = ?kv\<lparr>kv_n := p + nt\<rparr>" "embedding lctx2 = embedding lctx"
    by (subst x', simp)+
  have f4: "kv_self lctx4 = kv_self lctx3" "logits lctx4 = logits lctx3"
    "embedding lctx4 = embedding lctx3"
    by (subst u', simp)+
  have el: "embedding lctx = []" using e'(1) f2(2) by metis
  show thesis
  proof (rule that [OF r c x])
    show "embedding lctx = []" by (rule el)
    show "kv_self lctx' = ?kv\<lparr>kv_n := p + nt\<rparr>"
      by (simp add: m measure_performance_fields f4 e' f2)
    show "logits lctx' = logits lctx2" by (simp add: m measure_performance_fields f4 e')
    show "embedding lctx' = embedding lctx"
      by (simp add: m measure_performance_fields f4 e' el)
  qed
qed

lemma eval_embedding_requested:
  assumes "embedding lctx \<noteq> []"
  shows "gptneox_model_eval_internal run lctx n_tokens n_past \<noteq> Inr (r, lctx')"
proof
  assume "gptneox_model_eval_internal run lctx n_tokens n_past = Inr (r, lctx')"
  from eval_internal_Inr [OF this] have "embedding lctx = []" by metis
  with assms show False by simp
qed

subsection \<open>The small model\<close>

lemma tiny_wf: "wf_cache (hparams tiny_context) (kv_self tiny_context)"
  by (simp add: wf_cache_def tiny_context_def tiny_hparams_def tiny_cache_def)

lemma tiny_eval:
  "gptneox_model_eval_internal tiny_run tiny_context 2 1 = Inr (True, tiny_after)"
  by code_simp

lemma tiny_eval_all:
  "gptneox_model_eval_internal tiny_run (tiny_context\<lparr>logits_all := True\<rparr>) 2 1
     = Inr (True, tiny_after\<lparr>logits := [1, 2, 3, 4], logits_all := True\<rparr>)"
  by code_simp

lemma tiny_model_eval:
  "model_eval tiny_run 20 tiny_context 2 1
     = Inr (0, [], tiny_after\<lparr>has_evaluated_once := True, t_load_us := 17\<rparr>)"
  by code_simp

lemma tiny_eval_overrun:
  "gptneox_model_eval_internal tiny_run tiny_context 2 2 = Inr (True, tiny_overrun)"
  by code_simp

subsection \<open>The claims about the evaluator\<close>

text \<open>
  Claim C2, as the code has it. On a cache as the loader makes it, after every call of
  the evaluator that returns, with \<open>n_past = p\<close> not negative and \<open>N\<close> tokens that the
  context still has room for (\<open>p + N \<le> n_ctx\<close>): the valid length of the cache is
  \<open>p + N\<close>; every element of the first \<open>p\<close> positions, in every layer, of the keys and of
  the values, is what it was before the call; and the positions \<open>p .. p + N - 1\<close> of every
  layer hold the keys and values computed in this call.
\<close>

theorem cache_append:
  assumes wf: "wf_cache (hparams lctx) (kv_self lctx)"
    and p: "0 \<le> n_past" "n_past + n_tokens \<le> n_ctx (hparams lctx)"
    and ok: "gptneox_model_eval_internal run lctx n_tokens n_past = Inr (r, lctx')"
  shows "kv_n (kv_self lctx') = n_past + n_tokens
   \<and> (\<forall>il pos e. 0 \<le> il \<and> il < n_layer (hparams lctx) \<and> 0 \<le> pos \<and> pos < n_past
                  \<and> 0 \<le> e \<and> e < n_embd (hparams lctx) \<longrightarrow>
          k_entry (hparams lctx) (kv_self lctx') il pos e
            = k_entry (hparams lctx) (kv_self lctx) il pos e
        \<and> v_entry (hparams lctx) (kv_self lctx') il pos e
            = v_entry (hparams lctx) (kv_self lctx) il pos e)
   \<and> (\<forall>il t e. 0 \<le> il \<and> il < n_layer (hparams lctx) \<and> 0 \<le> t \<and> t < n_tokens
                \<and> 0 \<le> e \<and> e < n_embd (hparams lctx) \<longrightarrow>
          k_entry (hparams lctx) (kv_self lctx') il (n_past + t) e
            = Kcur run il (t * n_embd (hparams lctx) + e) 0
        \<and> v_entry (hparams lctx) (kv_self lctx') il (n_past + t) e = Vcur run il t e)"
proof -
  let ?hp = "hparams lctx"
  let ?kv = "layers run ?hp n_tokens n_past 0 (kv_self lctx)"
  from eval_internal_Inr [OF ok] have
    kv': "kv_self lctx' = ?kv\<lparr>kv_n := n_past + n_tokens\<rparr>" by metis
  have ent: "k_entry ?hp (kv_self lctx') il q e = k_entry ?hp ?kv il q e"
            "v_entry ?hp (kv_self lctx') il q e = v_entry ?hp ?kv il q e" for il q e
    by (simp_all add: kv' k_entry_def v_entry_def)
  show ?thesis
  proof (intro conjI allI impI)
    show "kv_n (kv_self lctx') = n_past + n_tokens" by (simp add: kv')
  next
    fix il pos e
    assume a: "0 \<le> il \<and> il < n_layer ?hp \<and> 0 \<le> pos \<and> pos < n_past
                 \<and> 0 \<le> e \<and> e < n_embd ?hp"
    have "pos < n_ctx ?hp \<or> n_past + n_tokens \<le> pos" using p(2) by linarith
    then have "k_entry ?hp ?kv il pos e = k_entry ?hp (kv_self lctx) il pos e
             \<and> v_entry ?hp ?kv il pos e = v_entry ?hp (kv_self lctx) il pos e"
    proof
      assume "pos < n_ctx ?hp"
      with a show ?thesis by (intro layers_other [OF wf p]) simp_all
    next
      assume "n_past + n_tokens \<le> pos"
      with a have "n_tokens < 0" by simp
      moreover have "0 < n_embd ?hp" using wf by (simp add: wf_cache_def)
      ultimately have "?kv = kv_self lctx" by (rule layers_negative)
      then show ?thesis by simp
    qed
    then show "k_entry ?hp (kv_self lctx') il pos e = k_entry ?hp (kv_self lctx) il pos e"
      and "v_entry ?hp (kv_self lctx') il pos e = v_entry ?hp (kv_self lctx) il pos e"
      by (simp_all add: ent)
  next
    fix il t e
    assume a: "0 \<le> il \<and> il < n_layer ?hp \<and> 0 \<le> t \<and> t < n_tokens
                 \<and> 0 \<le> e \<and> e < n_embd ?hp"
    then have "k_entry ?hp ?kv il (n_past + t) e = Kcur run il (t * n_embd ?hp + e) 0
        \<and> v_entry ?hp ?kv il (n_past + t) e = Vcur run il t e"
      by (intro layers_hit [OF wf p]) simp_all
    then show "k_entry ?hp (kv_self lctx') il (n_past + t) e = Kcur run il (t * n_embd ?hp + e) 0"
      and "v_entry ?hp (kv_self lctx') il (n_past + t) e = Vcur run il t e"
      by (simp_all add: ent)
  qed
qed

theorem cache_append_witness:
  "wf_cache (hparams tiny_context) (kv_self tiny_context)
   \<and> (0::int) \<le> 1 \<and> (1::int) + 2 \<le> n_ctx (hparams tiny_context)
   \<and> gptneox_model_eval_internal tiny_run tiny_context 2 1 = Inr (True, tiny_after)
   \<and> kv_n (kv_self tiny_after) = 1 + 2
   \<and> k_entry (hparams tiny_context) (kv_self tiny_after) 1 0 1 = 17
   \<and> k_entry (hparams tiny_context) (kv_self tiny_context) 1 0 1 = 17
   \<and> v_entry (hparams tiny_context) (kv_self tiny_after) 1 0 1 = 39
   \<and> v_entry (hparams tiny_context) (kv_self tiny_context) 1 0 1 = 39
   \<and> k_entry (hparams tiny_context) (kv_self tiny_after) 1 (1 + 1) 0 = Kcur tiny_run 1 (1 * 2 + 0) 0
   \<and> v_entry (hparams tiny_context) (kv_self tiny_after) 1 (1 + 1) 0 = Vcur tiny_run 1 1 0"
proof -
  have nc: "n_ctx (hparams tiny_context) = 3" "n_embd (hparams tiny_context) = 2"
    by (simp_all add: tiny_context_def tiny_hparams_def)
  have p: "(0::int) \<le> 1" "(1::int) + 2 \<le> n_ctx (hparams tiny_context)"
    by (simp_all add: nc)
  note c = cache_append [OF tiny_wf p tiny_eval]
  from c have n: "kv_n (kv_self tiny_after) = 1 + 2" by (rule conjunct1)
  from c have
    h: "k_entry (hparams tiny_context) (kv_self tiny_after) 1 0 1
          = k_entry (hparams tiny_context) (kv_self tiny_context) 1 0 1
      \<and> v_entry (hparams tiny_context) (kv_self tiny_after) 1 0 1
          = v_entry (hparams tiny_context) (kv_self tiny_context) 1 0 1"
    by (elim conjE allE [of _ 1] allE [of _ 0] impE)
       (simp_all add: tiny_context_def tiny_hparams_def)
  from c have
    w: "k_entry (hparams tiny_context) (kv_self tiny_after) 1 (1 + 1) 0
          = Kcur tiny_run 1 (1 * n_embd (hparams tiny_context) + 0) 0
      \<and> v_entry (hparams tiny_context) (kv_self tiny_after) 1 (1 + 1) 0 = Vcur tiny_run 1 1 0"
    by (elim conjE allE [of _ 1] allE [of _ 0] impE)
       (simp_all add: tiny_context_def tiny_hparams_def)
  have o: "k_entry (hparams tiny_context) (kv_self tiny_context) 1 0 1 = 17"
    "v_entry (hparams tiny_context) (kv_self tiny_context) 1 0 1 = 39"
    by (simp_all add: k_entry_def v_entry_def k_index_def v_index_def tiny_context_def
          tiny_hparams_def tiny_cache_def)
  from n h w o tiny_wf tiny_eval p show ?thesis by (simp add: nc)
qed

text \<open>
  The claim as it is written fails when the call asks for more positions than the
  context has left: the evaluator does not compare \<open>n_past + N\<close> with \<open>n_ctx\<close>. On the
  small model, whose context holds three positions, the evaluation of two tokens with
  \<open>n_past = 2\<close> returns \<open>true\<close> and sets the length of the cache to 4; the key of the second
  token, which layer 0 writes at its position 3, lies where layer 1 keeps its position
  0 (the key 16 stored there becomes 102), and the value of the second token in channel
  0 lies where layer 0 keeps position 0 of channel 1 (the value 33 stored there becomes
  210). Both entries are among the first two positions of the cache. The copies of layer
  1 that reach beyond the arrays of the cache are the writes that \<open>write_at\<close> leaves
  out.
\<close>

theorem cache_append_counterexample:
  "wf_cache (hparams tiny_context) (kv_self tiny_context)
   \<and> gptneox_model_eval_internal tiny_run tiny_context 2 2 = Inr (True, tiny_overrun)
   \<and> kv_n (kv_self tiny_overrun) = 4
   \<and> k_entry (hparams tiny_context) (kv_self tiny_context) 1 0 0 = 16
   \<and> k_entry (hparams tiny_context) (kv_self tiny_overrun) 1 0 0 = 102
   \<and> v_entry (hparams tiny_context) (kv_self tiny_context) 0 0 1 = 33
   \<and> v_entry (hparams tiny_context) (kv_self tiny_overrun) 0 0 1 = 210"
proof -
  have "k_entry (hparams tiny_context) (kv_self tiny_context) 1 0 0 = 16"
    "k_entry (hparams tiny_context) (kv_self tiny_overrun) 1 0 0 = 102"
    "v_entry (hparams tiny_context) (kv_self tiny_context) 0 0 1 = 33"
    "v_entry (hparams tiny_context) (kv_self tiny_overrun) 0 0 1 = 210"
    "kv_n (kv_self tiny_overrun) = 4"
    by (simp_all add: k_entry_def v_entry_def k_index_def v_index_def tiny_context_def
          tiny_hparams_def tiny_cache_def tiny_overrun_def tiny_cache_overrun_def)
  with tiny_wf tiny_eval_overrun show ?thesis by simp
qed

text \<open>
  Claim C8. After every call of the evaluator that returns, with \<open>N\<close> tokens, the vector
  of logits has \<open>n_vocab * N\<close> elements, the whole output tensor, when \<open>logits_all\<close> is
  set, and \<open>n_vocab\<close> elements, those from offset \<open>n_vocab * (N - 1)\<close> of the output
  tensor, when it is not.
\<close>

theorem logits_extracted:
  assumes "gptneox_model_eval_internal run lctx n_tokens n_past = Inr (r, lctx')"
  shows "(logits_all lctx \<longrightarrow>
            int (length (logits lctx')) = n_vocab (hparams lctx) * n_tokens
          \<and> logits lctx' = take (nat (n_vocab (hparams lctx) * n_tokens)) (data (inpL run)))
       \<and> (\<not> logits_all lctx \<longrightarrow>
            int (length (logits lctx')) = n_vocab (hparams lctx)
          \<and> logits lctx' = take (nat (n_vocab (hparams lctx)))
                (drop (nat (n_vocab (hparams lctx) * (n_tokens - 1))) (data (inpL run))))"
proof -
  define kv where "kv = layers run (hparams lctx) n_tokens n_past 0 (kv_self lctx)"
  from eval_internal_Inr [OF assms] obtain lctx2 where
    x: "extract_logits run n_tokens (lctx\<lparr>kv_self := kv\<lparr>kv_n := n_past + n_tokens\<rparr>\<rparr>) = Inr lctx2"
    and lg: "logits lctx' = logits lctx2" unfolding kv_def by metis
  have h: "logits_all (lctx\<lparr>kv_self := kv\<lparr>kv_n := n_past + n_tokens\<rparr>\<rparr>) = logits_all lctx"
    "hparams (lctx\<lparr>kv_self := kv\<lparr>kv_n := n_past + n_tokens\<rparr>\<rparr>) = hparams lctx"
    by simp_all
  have a: "int (length (logits lctx2)) = n_vocab (hparams lctx) * n_tokens
          \<and> logits lctx2 = take (nat (n_vocab (hparams lctx) * n_tokens)) (data (inpL run))"
    if "logits_all lctx"
    using extract_logits_Inr(2) [OF x] that unfolding h by blast
  have b: "int (length (logits lctx2)) = n_vocab (hparams lctx)
          \<and> logits lctx2 = take (nat (n_vocab (hparams lctx)))
                (drop (nat (n_vocab (hparams lctx) * (n_tokens - 1))) (data (inpL run)))"
    if "\<not> logits_all lctx"
    using extract_logits_Inr(3) [OF x] that unfolding h by blast
  show ?thesis unfolding lg using a b by blast
qed

theorem logits_extracted_witness:
  "gptneox_model_eval_internal tiny_run tiny_context 2 1 = Inr (True, tiny_after)
   \<and> \<not> logits_all tiny_context
   \<and> int (length (logits tiny_after)) = n_vocab (hparams tiny_context)
   \<and> logits tiny_after = [3, 4]
   \<and> gptneox_model_eval_internal tiny_run (tiny_context\<lparr>logits_all := True\<rparr>) 2 1
        = Inr (True, tiny_after\<lparr>logits := [1, 2, 3, 4], logits_all := True\<rparr>)
   \<and> int (length (logits (tiny_after\<lparr>logits := [1, 2, 3, 4], logits_all := True\<rparr>)))
        = n_vocab (hparams tiny_context) * 2"
  using logits_extracted [OF tiny_eval] logits_extracted [OF tiny_eval_all] tiny_eval tiny_eval_all
  by (simp add: tiny_context_def tiny_hparams_def tiny_after_def tiny_run_def)

text \<open>
  Claim C10. Whenever the internal evaluation returns, it returns \<open>true\<close> and the length
  of the cache is \<open>n_past + n_tokens\<close>; so \<open>model_eval\<close> returns 0 and prints nothing, its
  failure branch is never taken, and it ends without returning exactly when the internal
  evaluation does.
\<close>

theorem eval_returns_true:
  "(gptneox_model_eval_internal run lctx n_tokens n_past = Inr (r, lctx') \<longrightarrow>
      r = True \<and> kv_n (kv_self lctx') = n_past + n_tokens)
 \<and> (model_eval run now lctx n_tokens n_past = Inr (rc, err, ctx') \<longrightarrow>
      rc = 0 \<and> err = [] \<and> kv_n (kv_self ctx') = n_past + n_tokens)
 \<and> (model_eval run now lctx n_tokens n_past = Inl e
      \<longleftrightarrow> gptneox_model_eval_internal run lctx n_tokens n_past = Inl e)"
proof (intro conjI impI)
  assume a: "gptneox_model_eval_internal run lctx n_tokens n_past = Inr (r, lctx')"
  from eval_internal_Inr [OF a]
  show "r = True" and "kv_n (kv_self lctx') = n_past + n_tokens" by (metis, force)
next
  assume a: "model_eval run now lctx n_tokens n_past = Inr (rc, err, ctx')"
  then obtain ok ctx1 where
    i: "gptneox_model_eval_internal run lctx n_tokens n_past = Inr (ok, ctx1)"
    by (auto simp: model_eval_def split: sum.splits)
  from eval_internal_Inr [OF i] have ok: "ok = True"
    and n: "kv_n (kv_self ctx1) = n_past + n_tokens" by (metis, force)
  from a i ok have "rc = 0 \<and> err = [] \<and> kv_self ctx' = kv_self ctx1"
    by (auto simp: model_eval_def split: if_splits)
  with n show "rc = 0" and "err = []" and "kv_n (kv_self ctx') = n_past + n_tokens"
    by simp_all
next
  show "(model_eval run now lctx n_tokens n_past = Inl e)
      = (gptneox_model_eval_internal run lctx n_tokens n_past = Inl e)"
    by (auto simp: model_eval_def split: sum.splits if_splits)
qed

theorem eval_returns_true_witness:
  "gptneox_model_eval_internal tiny_run tiny_context 2 1 = Inr (True, tiny_after)
   \<and> kv_n (kv_self tiny_after) = 1 + 2
   \<and> model_eval tiny_run 20 tiny_context 2 1
        = Inr (0, [], tiny_after\<lparr>has_evaluated_once := True, t_load_us := 17\<rparr>)
   \<and> kv_n (kv_self (tiny_after\<lparr>has_evaluated_once := True, t_load_us := 17\<rparr>)) = 1 + 2"
  using eval_returns_true [of tiny_run tiny_context 2 1 True tiny_after 20 0 "[]"
      "tiny_after\<lparr>has_evaluated_once := True, t_load_us := 17\<rparr>"]
    tiny_eval tiny_model_eval
  by simp

text \<open>
  Claim C9 does not hold of the code. When the embedding is requested (the vector
  \<open>embedding\<close> of the context is not empty), the evaluator reads the data of the tensor
  \<open>embeddings\<close>, which is still the null pointer it was initialised with: the call ends
  there and the embedding is never filled. Here on the small model, with an embedding of
  \<open>n_embd = 2\<close> elements requested.
\<close>

theorem embedding_never_populated:
  "gptneox_model_eval_internal tiny_run (tiny_context\<lparr>embedding := [0, 0]\<rparr>) 2 1
     = Inl NullTensor"
  by code_simp

section \<open>Properties of the attention weights\<close>









section \<open>Properties of the parallel region\<close>

lemma dq_program_nth:
  assumes "dq_program t prog" and "k < length prog"
  shows "prog ! k = Barrier \<longleftrightarrow> k = 1"
    and "k = 0 \<Longrightarrow> prog ! k = QuantizeT (int t)"
    and "k \<noteq> 0 \<Longrightarrow> k \<noteq> 1 \<Longrightarrow> k = 2 \<and> (\<exists>c evs. prog ! k = Launch c evs)"
  using assms by (auto simp: dq_program_def nth_Cons' less_Suc_eq)

lemma quantized_before_snoc:
  assumes "quantized_before n tr"
    and "(\<exists>c evs. ev = Launch c evs) \<Longrightarrow> \<forall>u < n. (u, QuantizeT (int u)) \<in> set tr"
  shows "quantized_before n (tr @ [(t, ev)])"
  unfolding quantized_before_def
proof (intro allI impI)
  fix xs t' c evs ys u
  assume eq: "tr @ [(t, ev)] = xs @ (t', Launch c evs) # ys" and u: "u < n"
  show "(u, QuantizeT (int u)) \<in> set xs"
  proof (cases ys rule: rev_cases)
    case Nil
    with eq have "xs = tr" "ev = Launch c evs" by simp_all
    with assms(2) u show ?thesis by blast
  next
    case (snoc ys' y)
    with eq have "tr = xs @ (t', Launch c evs) # ys'" by simp
    with assms(1) u show ?thesis unfolding quantized_before_def by blast
  qed
qed

lemma dq_inv_step:
  assumes progs: "\<And>t. t < length progs \<Longrightarrow> dq_program t (progs ! t)"
    and inv: "dq_inv (length progs) s" and step: "par_step progs s s'"
  shows "dq_inv (length progs) s'"
  using step
proof cases
  case (exec pcs t tr)
  let ?n = "length progs"
  from inv exec(1) have
    len: "length pcs = ?n" and
    ph: "(\<forall>t < ?n. pcs ! t \<le> 1) \<or> (\<forall>t < ?n. 2 \<le> pcs ! t)" and
    q: "\<forall>t < ?n. 1 \<le> pcs ! t \<longrightarrow> (t, QuantizeT (int t)) \<in> set tr" and
    ord: "quantized_before ?n tr"
    by (simp_all add: dq_inv_def)
  note p = dq_program_nth [OF progs [OF exec(4)] exec(5)]
  from p(1) exec(6) have k1: "pcs ! t \<noteq> 1" by simp
  show ?thesis
  proof (cases "pcs ! t = 0")
    case True
    with ph exec(4) have low: "\<forall>u < ?n. pcs ! u \<le> 1" by force
    have ev: "progs ! t ! (pcs ! t) = QuantizeT (int t)" using p(2) True by simp
    have "quantized_before ?n (tr @ [(t, progs ! t ! (pcs ! t))])"
      using ord by (rule quantized_before_snoc) (simp add: ev)
    moreover have "\<forall>u < ?n. (pcs[t := Suc (pcs ! t)]) ! u \<le> 1"
      using low True len exec(4) by (auto simp: nth_list_update)
    moreover have "\<forall>u < ?n. 1 \<le> (pcs[t := Suc (pcs ! t)]) ! u \<longrightarrow>
                     (u, QuantizeT (int u)) \<in> set (tr @ [(t, progs ! t ! (pcs ! t))])"
      using q len ev exec(4) by (auto simp: nth_list_update)
    ultimately show ?thesis using len by (simp add: exec(2) dq_inv_def)
  next
    case False
    with p(3) k1 have k2: "pcs ! t = 2" by simp
    with ph exec(4) have high: "\<forall>u < ?n. 2 \<le> pcs ! u" by force
    with q have allq: "\<forall>u < ?n. (u, QuantizeT (int u)) \<in> set tr" by force
    have "quantized_before ?n (tr @ [(t, progs ! t ! (pcs ! t))])"
      using ord allq by (rule quantized_before_snoc)
    moreover have "\<forall>u < ?n. 2 \<le> (pcs[t := Suc (pcs ! t)]) ! u"
      using high len exec(4) by (auto simp: nth_list_update)
    moreover have "\<forall>u < ?n. (u, QuantizeT (int u)) \<in> set (tr @ [(t, progs ! t ! (pcs ! t))])"
      using allq by simp
    ultimately show ?thesis using len by (simp add: exec(2) dq_inv_def)
  qed
next
  case (barrier pcs tr)
  let ?n = "length progs"
  from inv barrier(1) have
    len: "length pcs = ?n" and
    q: "\<forall>t < ?n. 1 \<le> pcs ! t \<longrightarrow> (t, QuantizeT (int t)) \<in> set tr" and
    ord: "quantized_before ?n tr"
    by (simp_all add: dq_inv_def)
  have one: "pcs ! t = 1" if "t < ?n" for t
    using dq_program_nth(1) [OF progs [OF that], of "pcs ! t"] barrier(4) that by simp
  have "\<forall>t < ?n. 2 \<le> map Suc pcs ! t" using one len by simp
  moreover have "\<forall>t < ?n. (t, QuantizeT (int t)) \<in> set tr" using one q by simp
  ultimately show ?thesis using len ord by (simp add: barrier(2) dq_inv_def)
qed

lemma dq_inv_reachable:
  assumes progs: "\<And>t. t < length progs \<Longrightarrow> dq_program t (progs ! t)"
    and r: "par_reachable progs s"
  shows "dq_inv (length progs) s"
  using r unfolding par_reachable_def
proof (induction rule: rtranclp_induct)
  case base
  show ?case by (simp add: dq_inv_def quantized_before_def)
next
  case (step y z)
  show ?case using dq_inv_step [OF progs step.IH step.hyps(2)] by simp
qed

lemma compute_thread_dq_program:
  assumes "compute_thread_dq g ops cb p paral tidx = Some cs"
  shows "cs = [QuantizeT tidx, Barrier] \<or> (\<exists>c evs. cs = [QuantizeT tidx, Barrier, Launch c evs])"
  using assms unfolding compute_thread_dq_def Let_def
  by (auto split: prod.splits if_splits Option.bind_splits)

lemma compute_dq_programs:
  assumes "compute_dq g ops cb p paral0 = Some (st, logs)" and "t < length logs"
  shows "dq_program t (logs ! t)"
proof -
  from assms(2) compute_dq_logs(2) [OF assms(1)] have t: "0 \<le> int t" "int t < mNumThreads cb"
    by simp_all
  from compute_thread_dq_program [OF compute_dq_logs(3) [OF assms(1) t]]
  show ?thesis by (simp add: dq_program_def)
qed

text \<open>
  Claim C5. In every state that the parallel region of the dynamic-quantisation
  \<open>compute\<close> can reach, whenever a thread has called \<open>launch\<close> (and with it reads the
  quantised activations), every thread of the region has made its call of \<open>quantizeT\<close>
  before: the one barrier of the block, between the quantisation and the launch, lets no
  thread through before all have arrived.
\<close>

theorem quantize_before_launch:
  assumes "compute_dq g ops cb p paral0 = Some (st, logs)"
    and "par_reachable logs (pcs, tr)"
    and "tr = xs @ (t, Launch c evs) # ys"
  shows "\<forall>u < length logs. (u, QuantizeT (int u)) \<in> set xs"
proof -
  have "dq_inv (length logs) (pcs, tr)"
    using compute_dq_programs [OF assms(1)] assms(2) by (rule dq_inv_reachable)
  then have "quantized_before (length logs) tr" by (simp add: dq_inv_def)
  with assms(3) show ?thesis unfolding quantized_before_def by blast
qed

theorem quantize_before_launch_witness:
  "compute_dq core_2x2x2 (table_plan 1 1 4) two_threads small_param two_rectangles
     = Some (JblasSuccess,
         [[QuantizeT 0, Barrier, Launch small_config small_calls], [QuantizeT 1, Barrier]])
   \<and> par_reachable
        [[QuantizeT 0, Barrier, Launch small_config small_calls], [QuantizeT 1, Barrier]]
        ([3, 2], [(0, QuantizeT 0), (1, QuantizeT 1), (0, Launch small_config small_calls)])
   \<and> (0, QuantizeT 0) \<in> set [(0 :: nat, QuantizeT 0), (1, QuantizeT 1)]
   \<and> (1, QuantizeT 1) \<in> set [(0 :: nat, QuantizeT 0), (1, QuantizeT 1)]"
  (is "_ = Some (JblasSuccess, ?logs) \<and> par_reachable ?logs (?pcs, ?tr) \<and> _")
proof -
  have s1: "par_step ?logs ([0, 0], []) ([1, 0], [(0, QuantizeT 0)])"
    using par_step.exec [of "[0, 0]" ?logs 0 "[]"] by simp
  have s2: "par_step ?logs ([1, 0], [(0, QuantizeT 0)])
                           ([1, 1], [(0, QuantizeT 0), (1, QuantizeT 1)])"
    using par_step.exec [of "[1, 0]" ?logs 1 "[(0, QuantizeT 0)]"] by simp
  have s3: "par_step ?logs ([1, 1], [(0, QuantizeT 0), (1, QuantizeT 1)])
                           ([2, 2], [(0, QuantizeT 0), (1, QuantizeT 1)])"
    using par_step.barrier [of "[1, 1]" ?logs "[(0, QuantizeT 0), (1, QuantizeT 1)]"]
    by (simp add: less_Suc_eq numeral_2_eq_2 all_conj_distrib)
  have s4: "par_step ?logs ([2, 2], [(0, QuantizeT 0), (1, QuantizeT 1)]) (?pcs, ?tr)"
    using par_step.exec [of "[2, 2]" ?logs 0 "[(0, QuantizeT 0), (1, QuantizeT 1)]"]
    by (simp add: numeral_3_eq_3 numeral_2_eq_2)
  have r: "par_reachable ?logs (?pcs, ?tr)"
    unfolding par_reachable_def using s1 s2 s3 s4
    by (simp add: numeral_2_eq_2)
  have "\<forall>u < length ?logs. (u, QuantizeT (int u)) \<in> set [(0 :: nat, QuantizeT 0), (1, QuantizeT 1)]"
    by (rule quantize_before_launch [OF compute_dq_example r, of _ 0 _ _ "[]"]) simp
  then have "(0, QuantizeT (int 0)) \<in> set [(0 :: nat, QuantizeT 0), (1, QuantizeT 1)]"
    and "(1, QuantizeT (int 1)) \<in> set [(0 :: nat, QuantizeT 0), (1, QuantizeT 1)]"
    by simp_all
  with compute_dq_example r show ?thesis by simp
qed

end
